theory Spec2Isabelle
  imports Complex_Main "HOL-Library.Word"
begin

unbundle bit_operations_syntax

section \<open>libperfmon: the counter session of perfmon.c\<close>

text \<open>
  The library keeps one \<open>perfmon_context\<close> per session: an array of
  \<open>PERFMON_MAX_COUNTERS\<close> slots (a file descriptor and an enabled flag each), two
  timestamps and the running flag. Every operation talks to the Linux kernel through
  \<open>perf_event_open\<close>, \<open>ioctl\<close>, \<open>read\<close>, \<open>close\<close> and \<open>clock_gettime\<close>. The
  model passes the state of that environment (\<open>world\<close>) through every function and
  returns the C result first, the new world second and, for the functions that take the
  context pointer, the pointed-to context third. A \<open>NULL\<close> pointer is \<open>None\<close>.
\<close>

type_synonym u32 = "32 word"
type_synonym u64 = "64 word"

subsection \<open>perfmon.h\<close>

text \<open>
  \<open>perfmon_counter_type_t\<close> is a C enum whose enumerators are all non-negative; a
  value of the type is the unsigned number the caller passes, which may lie outside the
  enumerators. It is modelled by that number.
\<close>

definition PERFMON_CYCLES :: nat where "PERFMON_CYCLES = 0"
definition PERFMON_INSTRUCTIONS :: nat where "PERFMON_INSTRUCTIONS = 1"
definition PERFMON_BRANCHES :: nat where "PERFMON_BRANCHES = 2"
definition PERFMON_BRANCH_MISSES :: nat where "PERFMON_BRANCH_MISSES = 3"
definition PERFMON_CACHE_REFERENCES :: nat where "PERFMON_CACHE_REFERENCES = 4"
definition PERFMON_CACHE_MISSES :: nat where "PERFMON_CACHE_MISSES = 5"
definition PERFMON_DTLB_LOAD_MISSES :: nat where "PERFMON_DTLB_LOAD_MISSES = 6"
definition PERFMON_ITLB_MISSES :: nat where "PERFMON_ITLB_MISSES = 7"
definition PERFMON_PAGE_FAULTS :: nat where "PERFMON_PAGE_FAULTS = 8"
definition PERFMON_MINOR_FAULTS :: nat where "PERFMON_MINOR_FAULTS = 9"
definition PERFMON_MAJOR_FAULTS :: nat where "PERFMON_MAJOR_FAULTS = 10"
definition PERFMON_CONTEXT_SWITCHES :: nat where "PERFMON_CONTEXT_SWITCHES = 11"
definition PERFMON_CPU_MIGRATIONS :: nat where "PERFMON_CPU_MIGRATIONS = 12"
definition PERFMON_MAX_COUNTERS :: nat where "PERFMON_MAX_COUNTERS = 13"

text \<open>
  \<open>perfmon_stats_t\<close>. The four \<open>double\<close> fields have the type parameter \<open>'d\<close>: the
  arithmetic of C doubles is not part of this development, and every function that
  computes with doubles takes the operations it uses as a \<open>double_ops\<close> argument.
\<close>

record 'd perfmon_stats_t =
  cycles :: u64
  instructions :: u64
  branches :: u64
  branch_misses :: u64
  cache_references :: u64
  cache_misses :: u64
  dtlb_load_misses :: u64
  itlb_misses :: u64
  page_faults :: u64
  minor_faults :: u64
  major_faults :: u64
  context_switches :: u64
  cpu_migrations :: u64
  elapsed_time_sec :: 'd
  insn_per_cycle :: 'd
  branch_miss_rate :: 'd
  cache_miss_rate :: 'd

record 'd double_ops =
  d_zero :: 'd                        \<comment> \<open>the literal \<open>0.0\<close>, also the all-zero bit pattern\<close>
  d_100 :: 'd                         \<comment> \<open>the literal \<open>100.0\<close>\<close>
  d_1e9 :: 'd                         \<comment> \<open>the literal \<open>1e9\<close>\<close>
  d_of_u64 :: "u64 \<Rightarrow> 'd"            \<comment> \<open>the cast \<open>(double)\<close> of a \<open>uint64_t\<close>\<close>
  d_of_long :: "int \<Rightarrow> 'd"           \<comment> \<open>the cast \<open>(double)\<close> of a \<open>time_t\<close> or \<open>long\<close>\<close>
  d_add :: "'d \<Rightarrow> 'd \<Rightarrow> 'd"
  d_mul :: "'d \<Rightarrow> 'd \<Rightarrow> 'd"
  d_div :: "'d \<Rightarrow> 'd \<Rightarrow> 'd"

subsection \<open>The environment: kernel and C library\<close>

text \<open>
  \<open>struct perf_event_attr\<close>, with the fields that perfmon.c sets after clearing the
  structure (\<open>size\<close> is the constant \<open>sizeof\<close> of the structure).
\<close>

record perf_event_attr =
  pe_type :: u32
  pe_config :: u64
  pe_disabled :: bool
  pe_exclude_kernel :: bool
  pe_exclude_hv :: bool
  pe_inherit :: bool

text \<open>The constants of \<open>linux/perf_event.h\<close> that perfmon.c names.\<close>

definition PERF_TYPE_HARDWARE :: u32 where "PERF_TYPE_HARDWARE = 0"
definition PERF_TYPE_SOFTWARE :: u32 where "PERF_TYPE_SOFTWARE = 1"
definition PERF_TYPE_HW_CACHE :: u32 where "PERF_TYPE_HW_CACHE = 3"

definition PERF_COUNT_HW_CPU_CYCLES :: u64 where "PERF_COUNT_HW_CPU_CYCLES = 0"
definition PERF_COUNT_HW_INSTRUCTIONS :: u64 where "PERF_COUNT_HW_INSTRUCTIONS = 1"
definition PERF_COUNT_HW_CACHE_REFERENCES :: u64 where "PERF_COUNT_HW_CACHE_REFERENCES = 2"
definition PERF_COUNT_HW_CACHE_MISSES :: u64 where "PERF_COUNT_HW_CACHE_MISSES = 3"
definition PERF_COUNT_HW_BRANCH_INSTRUCTIONS :: u64 where "PERF_COUNT_HW_BRANCH_INSTRUCTIONS = 4"
definition PERF_COUNT_HW_BRANCH_MISSES :: u64 where "PERF_COUNT_HW_BRANCH_MISSES = 5"

definition PERF_COUNT_SW_PAGE_FAULTS :: u64 where "PERF_COUNT_SW_PAGE_FAULTS = 2"
definition PERF_COUNT_SW_CONTEXT_SWITCHES :: u64 where "PERF_COUNT_SW_CONTEXT_SWITCHES = 3"
definition PERF_COUNT_SW_CPU_MIGRATIONS :: u64 where "PERF_COUNT_SW_CPU_MIGRATIONS = 4"
definition PERF_COUNT_SW_PAGE_FAULTS_MIN :: u64 where "PERF_COUNT_SW_PAGE_FAULTS_MIN = 5"
definition PERF_COUNT_SW_PAGE_FAULTS_MAJ :: u64 where "PERF_COUNT_SW_PAGE_FAULTS_MAJ = 6"

definition PERF_COUNT_HW_CACHE_DTLB :: u64 where "PERF_COUNT_HW_CACHE_DTLB = 3"
definition PERF_COUNT_HW_CACHE_ITLB :: u64 where "PERF_COUNT_HW_CACHE_ITLB = 4"
definition PERF_COUNT_HW_CACHE_OP_READ :: u64 where "PERF_COUNT_HW_CACHE_OP_READ = 0"
definition PERF_COUNT_HW_CACHE_RESULT_MISS :: u64 where "PERF_COUNT_HW_CACHE_RESULT_MISS = 1"

datatype ioctl_req = PERF_EVENT_IOC_ENABLE | PERF_EVENT_IOC_DISABLE | PERF_EVENT_IOC_RESET

text \<open>
  A system call as it appears in the log of the world: \<open>perf_event_open\<close> with the
  attribute it was given and the descriptor it returned, the others with the
  descriptor they were applied to.
\<close>

datatype syscall =
    Sys_perf_event_open perf_event_attr int
  | Sys_ioctl int ioctl_req
  | Sys_read int
  | Sys_close int
  | Sys_clock_gettime

text \<open>
  A perf event inside the kernel: the value a \<open>read\<close> of it returns and whether it
  counts.
\<close>

record perf_event =
  ev_count :: u64
  ev_active :: bool

record timespec =
  tv_sec :: int
  tv_nsec :: int

text \<open>
  The world. \<open>k_perf_policy\<close> decides every call of \<open>perf_event_open\<close> from the log
  of all earlier system calls and the attribute: \<open>None\<close> grants the event, \<open>Some e\<close>
  refuses it with \<open>errno = e\<close>; nothing is assumed about it. \<open>k_read_short\<close> tells
  for which descriptors \<open>read\<close> delivers fewer than eight bytes. \<open>k_calloc_ok\<close> tells
  whether \<open>calloc\<close> can serve the context. \<open>error_msg\<close> is the thread-local buffer of
  perfmon.c, \<open>errno\<close> the C library's, written here only by the two calls after which
  perfmon.c reads it.

  \<open>k_inherited\<close> is \<open>None\<close> for a descriptor whose event was opened without
  \<open>inherit\<close>. For an event opened with \<open>inherit\<close> it is the part of the event's value
  that child processes had counted when they exited: the kernel keeps that part apart
  from the event's own count, and \<open>PERF_EVENT_IOC_RESET\<close> clears the own count only.
\<close>

record world =
  k_events :: "int \<Rightarrow> perf_event option"
  k_inherited :: "int \<Rightarrow> u64 option"
  k_next_fd :: nat
  k_perf_policy :: "syscall list \<Rightarrow> perf_event_attr \<Rightarrow> nat option"
  k_read_short :: "int \<Rightarrow> bool"
  k_clock :: timespec
  k_trace :: "syscall list"
  k_calloc_ok :: bool
  k_strerror :: "nat \<Rightarrow> string"
  errno :: nat
  error_msg :: string

definition log_call :: "syscall \<Rightarrow> world \<Rightarrow> world" where
  "log_call c w = w\<lparr>k_trace := k_trace w @ [c]\<rparr>"

text \<open>
  \<open>perf_event_open(&pe, 0, -1, -1, 0)\<close>: the calling process, any CPU, no group, no
  flags. A granted event starts at zero, counting unless \<open>disabled\<close> is set, under a
  descriptor that no earlier call returned; with \<open>inherit\<close> it starts with nothing
  counted by exited children.
\<close>

definition perf_event_open :: "world \<Rightarrow> perf_event_attr \<Rightarrow> int \<times> world" where
  "perf_event_open w pe =
     (case k_perf_policy w (k_trace w) pe of
        Some e \<Rightarrow> (- 1, (log_call (Sys_perf_event_open pe (- 1)) w)\<lparr>errno := e\<rparr>)
      | None \<Rightarrow>
          (let f = int (k_next_fd w) in
           (f, (log_call (Sys_perf_event_open pe f) w)
                 \<lparr>k_events := (k_events w)(f \<mapsto> \<lparr>ev_count = 0, ev_active = \<not> pe_disabled pe\<rparr>),
                  k_inherited := (k_inherited w)(f := if pe_inherit pe then Some 0 else None),
                  k_next_fd := Suc (k_next_fd w)\<rparr>)))"

text \<open>
  The value \<open>PERF_EVENT_IOC_RESET\<close> leaves in the event of the descriptor \<open>f\<close>: what
  exited children had counted, zero when there is nothing of the kind.
\<close>

definition reset_value :: "world \<Rightarrow> int \<Rightarrow> u64" where
  "reset_value w f = (case k_inherited w f of None \<Rightarrow> 0 | Some v \<Rightarrow> v)"

definition apply_req :: "u64 \<Rightarrow> ioctl_req \<Rightarrow> perf_event \<Rightarrow> perf_event" where
  "apply_req left req ev =
     (case req of
        PERF_EVENT_IOC_ENABLE \<Rightarrow> ev\<lparr>ev_active := True\<rparr>
      | PERF_EVENT_IOC_DISABLE \<Rightarrow> ev\<lparr>ev_active := False\<rparr>
      | PERF_EVENT_IOC_RESET \<Rightarrow> ev\<lparr>ev_count := left\<rparr>)"

text \<open>\<open>ioctl(fd, req, 0)\<close>; perfmon.c ignores its result.\<close>

definition sys_ioctl :: "world \<Rightarrow> int \<Rightarrow> ioctl_req \<Rightarrow> world" where
  "sys_ioctl w f req =
     (case k_events w f of
        None \<Rightarrow> log_call (Sys_ioctl f req) w
      | Some ev \<Rightarrow>
          (log_call (Sys_ioctl f req) w)
            \<lparr>k_events := (k_events w)(f \<mapsto> apply_req (reset_value w f) req ev)\<rparr>)"

text \<open>
  \<open>read(fd, &count, sizeof(count))\<close>: \<open>Some v\<close> when all eight bytes arrive, \<open>None\<close>
  for an error or a short read.
\<close>

definition sys_read :: "world \<Rightarrow> int \<Rightarrow> u64 option \<times> world" where
  "sys_read w f =
     (case k_events w f of
        None \<Rightarrow> (None, log_call (Sys_read f) w)
      | Some ev \<Rightarrow> (if k_read_short w f then None else Some (ev_count ev), log_call (Sys_read f) w))"

definition sys_close :: "world \<Rightarrow> int \<Rightarrow> world" where
  "sys_close w f =
     (log_call (Sys_close f) w)
       \<lparr>k_events := (k_events w)(f := None), k_inherited := (k_inherited w)(f := None)\<rparr>"

definition clock_gettime :: "world \<Rightarrow> timespec \<times> world" where
  "clock_gettime w = (k_clock w, log_call Sys_clock_gettime w)"

text \<open>
  What the measured process itself does between two calls of the library: every event
  that counts advances by the amount \<open>delta\<close> gives for its descriptor, an event that
  does not count keeps its value, and the monotonic clock moves to \<open>t\<close>.
\<close>

definition workload :: "(int \<Rightarrow> u64) \<Rightarrow> timespec \<Rightarrow> world \<Rightarrow> world" where
  "workload delta t w =
     w\<lparr>k_events := (\<lambda>f. case k_events w f of
                          None \<Rightarrow> None
                        | Some ev \<Rightarrow> Some (if ev_active ev then ev\<lparr>ev_count := ev_count ev + delta f\<rparr> else ev)),
       k_clock := t\<rparr>"


subsection \<open>perfmon.c\<close>

record perf_counter_t =
  fd :: int
  enabled :: bool

record perfmon_context =
  counters :: "perf_counter_t list"
  start_time :: timespec
  end_time :: timespec
  is_running :: bool

text \<open>
  \<open>%u\<close> and \<open>%lu\<close>: an unsigned number in decimal. The numbers printed are 32-bit
  and 64-bit values, which have at most 20 digits; \<open>dec_digits k\<close> prints a number of
  at most \<open>k\<close> digits.
\<close>

fun dec_digits :: "nat \<Rightarrow> int \<Rightarrow> string" where
  "dec_digits 0 n = []"
| "dec_digits (Suc k) n =
     (if n < 10 then [char_of (48 + n)]
      else dec_digits k (n div 10) @ [char_of (48 + n mod 10)])"

definition dec :: "int \<Rightarrow> string" where
  "dec n = dec_digits 20 n"

text \<open>\<open>vsnprintf\<close> into the 256 bytes of \<open>error_msg\<close> keeps at most 255 characters.\<close>

definition set_error :: "string \<Rightarrow> world \<Rightarrow> world" where
  "set_error msg w = w\<lparr>error_msg := take 255 msg\<rparr>"

definition setup_counter :: "world \<Rightarrow> u32 \<Rightarrow> u64 \<Rightarrow> int \<times> world" where
  "setup_counter w ty config =
     (let pe = \<lparr>pe_type = ty, pe_config = config, pe_disabled = True,
                pe_exclude_kernel = False, pe_exclude_hv = False, pe_inherit = True\<rparr>;
          (f, w1) = perf_event_open w pe
      in if f = - 1
         then (f, set_error (''Failed to open perf event (type='' @ dec (uint ty) @ '', config=''
                              @ dec (uint config) @ ''): '' @ k_strerror w1 (errno w1)) w1)
         else (f, w1))"

text \<open>
  The pair of statements that perfmon_init repeats for every kind:
  \<open>ctx->counters[K].fd = setup_counter(T, C);
   ctx->counters[K].enabled = (ctx->counters[K].fd != -1);\<close>
\<close>

definition init_counter ::
  "nat \<Rightarrow> u32 \<Rightarrow> u64 \<Rightarrow> perf_counter_t list \<times> world \<Rightarrow> perf_counter_t list \<times> world" where
  "init_counter k ty config = (\<lambda>(cs, w).
     (let (f, w1) = setup_counter w ty config;
          cs1 = cs[k := (cs ! k)\<lparr>fd := f\<rparr>];
          cs2 = cs1[k := (cs1 ! k)\<lparr>enabled := (fd (cs1 ! k) \<noteq> - 1)\<rparr>]
      in (cs2, w1)))"

text \<open>The first loop of perfmon_init: every slot without descriptor and disabled.\<close>

fun clear_counters :: "nat list \<Rightarrow> perf_counter_t list \<Rightarrow> perf_counter_t list" where
  "clear_counters [] cs = cs"
| "clear_counters (i # is) cs =
     clear_counters is (cs[i := (cs ! i)\<lparr>fd := - 1, enabled := False\<rparr>])"

definition dtlb_config :: u64 where
  "dtlb_config = PERF_COUNT_HW_CACHE_DTLB OR push_bit 8 PERF_COUNT_HW_CACHE_OP_READ
                   OR push_bit 16 PERF_COUNT_HW_CACHE_RESULT_MISS"

definition itlb_config :: u64 where
  "itlb_config = PERF_COUNT_HW_CACHE_ITLB OR push_bit 8 PERF_COUNT_HW_CACHE_OP_READ
                   OR push_bit 16 PERF_COUNT_HW_CACHE_RESULT_MISS"

text \<open>The thirteen acquisitions of perfmon_init, in the order of the source.\<close>

definition init_all :: "perf_counter_t list \<times> world \<Rightarrow> perf_counter_t list \<times> world" where
  "init_all s =
     (let s1 = init_counter PERFMON_CYCLES PERF_TYPE_HARDWARE PERF_COUNT_HW_CPU_CYCLES s;
          s2 = init_counter PERFMON_INSTRUCTIONS PERF_TYPE_HARDWARE PERF_COUNT_HW_INSTRUCTIONS s1;
          s3 = init_counter PERFMON_BRANCHES PERF_TYPE_HARDWARE PERF_COUNT_HW_BRANCH_INSTRUCTIONS s2;
          s4 = init_counter PERFMON_BRANCH_MISSES PERF_TYPE_HARDWARE PERF_COUNT_HW_BRANCH_MISSES s3;
          s5 = init_counter PERFMON_CACHE_REFERENCES PERF_TYPE_HARDWARE PERF_COUNT_HW_CACHE_REFERENCES s4;
          s6 = init_counter PERFMON_CACHE_MISSES PERF_TYPE_HARDWARE PERF_COUNT_HW_CACHE_MISSES s5;
          s7 = init_counter PERFMON_PAGE_FAULTS PERF_TYPE_SOFTWARE PERF_COUNT_SW_PAGE_FAULTS s6;
          s8 = init_counter PERFMON_MINOR_FAULTS PERF_TYPE_SOFTWARE PERF_COUNT_SW_PAGE_FAULTS_MIN s7;
          s9 = init_counter PERFMON_MAJOR_FAULTS PERF_TYPE_SOFTWARE PERF_COUNT_SW_PAGE_FAULTS_MAJ s8;
          s10 = init_counter PERFMON_CONTEXT_SWITCHES PERF_TYPE_SOFTWARE PERF_COUNT_SW_CONTEXT_SWITCHES s9;
          s11 = init_counter PERFMON_CPU_MIGRATIONS PERF_TYPE_SOFTWARE PERF_COUNT_SW_CPU_MIGRATIONS s10;
          s12 = init_counter PERFMON_DTLB_LOAD_MISSES PERF_TYPE_HW_CACHE dtlb_config s11;
          s13 = init_counter PERFMON_ITLB_MISSES PERF_TYPE_HW_CACHE itlb_config s12
      in s13)"

text \<open>
  \<open>calloc\<close> returns the context with every byte zero, or \<open>NULL\<close> with \<open>errno\<close> set to
  \<open>ENOMEM\<close> (12).
\<close>

definition calloc_context :: "world \<Rightarrow> perfmon_context option \<times> world" where
  "calloc_context w =
     (if k_calloc_ok w
      then (Some \<lparr>counters = replicate PERFMON_MAX_COUNTERS \<lparr>fd = 0, enabled = False\<rparr>,
                  start_time = \<lparr>tv_sec = 0, tv_nsec = 0\<rparr>,
                  end_time = \<lparr>tv_sec = 0, tv_nsec = 0\<rparr>,
                  is_running = False\<rparr>, w)
      else (None, w\<lparr>errno := 12\<rparr>))"

definition perfmon_init :: "world \<Rightarrow> perfmon_context option \<times> world" where
  "perfmon_init w =
     (case calloc_context w of
        (None, w1) \<Rightarrow>
          (None, set_error (''Failed to allocate context: '' @ k_strerror w1 (errno w1)) w1)
      | (Some ctx, w1) \<Rightarrow>
          (let cs0 = clear_counters [0..<PERFMON_MAX_COUNTERS] (counters ctx);
               (cs, w2) = init_all (cs0, w1);
               ctx1 = ctx\<lparr>counters := cs\<rparr>;
               ctx2 = ctx1\<lparr>is_running := False\<rparr>
           in (Some ctx2, w2)))"

text \<open>
  The loop shared by start, stop and reset:
  \<open>for (i = 0; i < PERFMON_MAX_COUNTERS; i++)
     if (ctx->counters[i].enabled && ctx->counters[i].fd != -1) body(ctx->counters[i].fd);\<close>
\<close>

fun counter_loop ::
  "(int \<Rightarrow> world \<Rightarrow> world) \<Rightarrow> perf_counter_t list \<Rightarrow> nat list \<Rightarrow> world \<Rightarrow> world" where
  "counter_loop body cs [] w = w"
| "counter_loop body cs (i # is) w =
     counter_loop body cs is
       (if enabled (cs ! i) \<and> fd (cs ! i) \<noteq> - 1 then body (fd (cs ! i)) w else w)"

definition reset_enable :: "int \<Rightarrow> world \<Rightarrow> world" where
  "reset_enable f w = sys_ioctl (sys_ioctl w f PERF_EVENT_IOC_RESET) f PERF_EVENT_IOC_ENABLE"

definition perfmon_start :: "world \<Rightarrow> perfmon_context option \<Rightarrow> bool \<times> world \<times> perfmon_context option" where
  "perfmon_start w ctxp =
     (case ctxp of
        None \<Rightarrow> (False, set_error ''Invalid context'' w, None)
      | Some ctx \<Rightarrow>
          if is_running ctx
          then (False, set_error ''Monitoring already running'' w, Some ctx)
          else
            (let w1 = counter_loop reset_enable (counters ctx) [0..<PERFMON_MAX_COUNTERS] w;
                 (t, w2) = clock_gettime w1;
                 ctx1 = ctx\<lparr>start_time := t\<rparr>;
                 ctx2 = ctx1\<lparr>is_running := True\<rparr>
             in (True, w2, Some ctx2)))"

definition read_counter :: "world \<Rightarrow> int \<Rightarrow> u64 \<times> world" where
  "read_counter w f =
     (if f \<noteq> - 1
      then (case sys_read w f of
              (None, w1) \<Rightarrow> (0, w1)
            | (Some count, w1) \<Rightarrow> (count, w1))
      else (0, w))"

text \<open>
  \<open>tv_sec\<close> and \<open>tv_nsec\<close> are signed 64-bit numbers; both clock values come from
  \<open>CLOCK_MONOTONIC\<close>, so the differences are taken in the integers.
\<close>

definition timespec_diff_sec :: "'d double_ops \<Rightarrow> timespec \<Rightarrow> timespec \<Rightarrow> 'd" where
  "timespec_diff_sec ops start end =
     (let sec = d_of_long ops (tv_sec end - tv_sec start);
          nsec = d_div ops (d_of_long ops (tv_nsec end - tv_nsec start)) (d_1e9 ops)
      in d_add ops sec nsec)"

definition disable_event :: "int \<Rightarrow> world \<Rightarrow> world" where
  "disable_event f w = sys_ioctl w f PERF_EVENT_IOC_DISABLE"

definition zero_stats :: "'d double_ops \<Rightarrow> 'd perfmon_stats_t" where
  "zero_stats ops =
     \<lparr>cycles = 0, instructions = 0, branches = 0, branch_misses = 0, cache_references = 0,
      cache_misses = 0, dtlb_load_misses = 0, itlb_misses = 0, page_faults = 0,
      minor_faults = 0, major_faults = 0, context_switches = 0, cpu_migrations = 0,
      elapsed_time_sec = d_zero ops, insn_per_cycle = d_zero ops,
      branch_miss_rate = d_zero ops, cache_miss_rate = d_zero ops\<rparr>"

text \<open>
  The body of \<open>if (stats) { ... }\<close> in perfmon_stop, in three parts: the thirteen
  reads after the \<open>memset\<close>, the three derived metrics, and the whole body.
\<close>

definition read_all_counters ::
  "'d double_ops \<Rightarrow> perfmon_context \<Rightarrow> world \<Rightarrow> 'd perfmon_stats_t \<times> world" where
  "read_all_counters ops ctx w =
     (let s = zero_stats ops;
          (v, w) = read_counter w (fd (counters ctx ! PERFMON_CYCLES)); s = s\<lparr>cycles := v\<rparr>;
          (v, w) = read_counter w (fd (counters ctx ! PERFMON_INSTRUCTIONS)); s = s\<lparr>instructions := v\<rparr>;
          (v, w) = read_counter w (fd (counters ctx ! PERFMON_BRANCHES)); s = s\<lparr>branches := v\<rparr>;
          (v, w) = read_counter w (fd (counters ctx ! PERFMON_BRANCH_MISSES)); s = s\<lparr>branch_misses := v\<rparr>;
          (v, w) = read_counter w (fd (counters ctx ! PERFMON_CACHE_REFERENCES)); s = s\<lparr>cache_references := v\<rparr>;
          (v, w) = read_counter w (fd (counters ctx ! PERFMON_CACHE_MISSES)); s = s\<lparr>cache_misses := v\<rparr>;
          (v, w) = read_counter w (fd (counters ctx ! PERFMON_DTLB_LOAD_MISSES)); s = s\<lparr>dtlb_load_misses := v\<rparr>;
          (v, w) = read_counter w (fd (counters ctx ! PERFMON_ITLB_MISSES)); s = s\<lparr>itlb_misses := v\<rparr>;
          (v, w) = read_counter w (fd (counters ctx ! PERFMON_PAGE_FAULTS)); s = s\<lparr>page_faults := v\<rparr>;
          (v, w) = read_counter w (fd (counters ctx ! PERFMON_MINOR_FAULTS)); s = s\<lparr>minor_faults := v\<rparr>;
          (v, w) = read_counter w (fd (counters ctx ! PERFMON_MAJOR_FAULTS)); s = s\<lparr>major_faults := v\<rparr>;
          (v, w) = read_counter w (fd (counters ctx ! PERFMON_CONTEXT_SWITCHES)); s = s\<lparr>context_switches := v\<rparr>;
          (v, w) = read_counter w (fd (counters ctx ! PERFMON_CPU_MIGRATIONS)); s = s\<lparr>cpu_migrations := v\<rparr>
      in (s, w))"

definition derived_metrics :: "'d double_ops \<Rightarrow> 'd perfmon_stats_t \<Rightarrow> 'd perfmon_stats_t" where
  "derived_metrics ops s =
     (let s = (if 0 < cycles s
               then s\<lparr>insn_per_cycle := d_div ops (d_of_u64 ops (instructions s)) (d_of_u64 ops (cycles s))\<rparr>
               else s\<lparr>insn_per_cycle := d_zero ops\<rparr>);
          s = (if 0 < branches s
               then s\<lparr>branch_miss_rate :=
                        d_mul ops (d_div ops (d_of_u64 ops (branch_misses s)) (d_of_u64 ops (branches s))) (d_100 ops)\<rparr>
               else s\<lparr>branch_miss_rate := d_zero ops\<rparr>);
          s = (if 0 < cache_references s
               then s\<lparr>cache_miss_rate :=
                        d_mul ops (d_div ops (d_of_u64 ops (cache_misses s)) (d_of_u64 ops (cache_references s))) (d_100 ops)\<rparr>
               else s\<lparr>cache_miss_rate := d_zero ops\<rparr>)
      in s)"

definition collect_stats ::
  "'d double_ops \<Rightarrow> perfmon_context \<Rightarrow> world \<Rightarrow> 'd perfmon_stats_t \<times> world" where
  "collect_stats ops ctx w =
     (let (s, w) = read_all_counters ops ctx w;
          s = s\<lparr>elapsed_time_sec := timespec_diff_sec ops (start_time ctx) (end_time ctx)\<rparr>;
          s = derived_metrics ops s
      in (s, w))"

text \<open>
  perfmon_stop. \<open>stats\<close> is the caller's pointer: \<open>None\<close> for \<open>NULL\<close>, otherwise the
  record it points to, returned as the call leaves it.
\<close>

definition perfmon_stop ::
  "'d double_ops \<Rightarrow> world \<Rightarrow> perfmon_context option \<Rightarrow> 'd perfmon_stats_t option
     \<Rightarrow> bool \<times> world \<times> perfmon_context option \<times> 'd perfmon_stats_t option" where
  "perfmon_stop ops w ctxp stats =
     (case ctxp of
        None \<Rightarrow> (False, set_error ''Invalid context'' w, None, stats)
      | Some ctx \<Rightarrow>
          if \<not> is_running ctx
          then (False, set_error ''Monitoring not running'' w, Some ctx, stats)
          else
            (let (t, w1) = clock_gettime w;
                 ctx1 = ctx\<lparr>end_time := t\<rparr>;
                 w2 = counter_loop disable_event (counters ctx1) [0..<PERFMON_MAX_COUNTERS] w1;
                 (stats1, w3) =
                   (case stats of
                      None \<Rightarrow> (None, w2)
                    | Some _ \<Rightarrow> (let (s, w') = collect_stats ops ctx1 w2 in (Some s, w')));
                 ctx2 = ctx1\<lparr>is_running := False\<rparr>
             in (True, w3, Some ctx2, stats1)))"

definition reset_event :: "int \<Rightarrow> world \<Rightarrow> world" where
  "reset_event f w = sys_ioctl w f PERF_EVENT_IOC_RESET"

definition perfmon_reset :: "world \<Rightarrow> perfmon_context option \<Rightarrow> bool \<times> world \<times> perfmon_context option" where
  "perfmon_reset w ctxp =
     (case ctxp of
        None \<Rightarrow> (False, set_error ''Invalid context'' w, None)
      | Some ctx \<Rightarrow>
          (True, counter_loop reset_event (counters ctx) [0..<PERFMON_MAX_COUNTERS] w, Some ctx))"

text \<open>The loop of perfmon_cleanup; the context is freed, so only the world remains.\<close>

fun close_loop :: "perf_counter_t list \<Rightarrow> nat list \<Rightarrow> world \<Rightarrow> world" where
  "close_loop cs [] w = w"
| "close_loop cs (i # is) w =
     close_loop cs is (if fd (cs ! i) \<noteq> - 1 then sys_close w (fd (cs ! i)) else w)"

definition perfmon_cleanup :: "world \<Rightarrow> perfmon_context option \<Rightarrow> world" where
  "perfmon_cleanup w ctxp =
     (case ctxp of
        None \<Rightarrow> w
      | Some ctx \<Rightarrow> close_loop (counters ctx) [0..<PERFMON_MAX_COUNTERS] w)"

definition perfmon_get_error :: "world \<Rightarrow> string" where
  "perfmon_get_error w = error_msg w"

definition perfmon_is_supported :: "world \<Rightarrow> bool \<times> world" where
  "perfmon_is_supported w =
     (let pe = \<lparr>pe_type = PERF_TYPE_HARDWARE, pe_config = PERF_COUNT_HW_CPU_CYCLES,
                pe_disabled = True, pe_exclude_kernel = False, pe_exclude_hv = False,
                pe_inherit = False\<rparr>;
          (f, w1) = perf_event_open w pe
      in if f = - 1 then (False, w1) else (True, sys_close w1 f))"

definition perfmon_enable_counter ::
  "world \<Rightarrow> perfmon_context option \<Rightarrow> nat \<Rightarrow> bool \<times> world \<times> perfmon_context option" where
  "perfmon_enable_counter w ctxp ty =
     (case ctxp of
        None \<Rightarrow> (False, set_error ''Invalid context or counter type'' w, None)
      | Some ctx \<Rightarrow>
          if PERFMON_MAX_COUNTERS \<le> ty
          then (False, set_error ''Invalid context or counter type'' w, Some ctx)
          else if fd (counters ctx ! ty) \<noteq> - 1
          then (True, w, Some (ctx\<lparr>counters := (counters ctx)[ty := (counters ctx ! ty)\<lparr>enabled := True\<rparr>]\<rparr>))
          else (False, w, Some ctx))"

definition perfmon_disable_counter ::
  "world \<Rightarrow> perfmon_context option \<Rightarrow> nat \<Rightarrow> bool \<times> world \<times> perfmon_context option" where
  "perfmon_disable_counter w ctxp ty =
     (case ctxp of
        None \<Rightarrow> (False, set_error ''Invalid context or counter type'' w, None)
      | Some ctx \<Rightarrow>
          if PERFMON_MAX_COUNTERS \<le> ty
          then (False, set_error ''Invalid context or counter type'' w, Some ctx)
          else (True, w, Some (ctx\<lparr>counters := (counters ctx)[ty := (counters ctx ! ty)\<lparr>enabled := False\<rparr>]\<rparr>)))"

subsection \<open>Vocabulary of the statements\<close>

text \<open>
  The condition of the three loops over the slots: slot \<open>i\<close> is enabled and holds a
  descriptor. \<open>armed_fds cs is\<close> lists the descriptors of those slots among the
  indices \<open>is\<close>, in the order of the loop.
\<close>

definition armed :: "perf_counter_t list \<Rightarrow> nat \<Rightarrow> bool" where
  "armed cs i \<longleftrightarrow> enabled (cs ! i) \<and> fd (cs ! i) \<noteq> - 1"

definition armed_fds :: "perf_counter_t list \<Rightarrow> nat list \<Rightarrow> int list" where
  "armed_fds cs is = map (\<lambda>i. fd (cs ! i)) (filter (armed cs) is)"

text \<open>
  What \<open>read_counter\<close> returns for the descriptor \<open>f\<close> in the world \<open>w\<close>, the
  \<open>read\<close> calls it makes for a list of descriptors, and the raw count of the kind
  \<open>k\<close> in a statistics record.
\<close>

definition counter_value :: "world \<Rightarrow> int \<Rightarrow> u64" where
  "counter_value w f =
     (if f = - 1 then 0
      else case k_events w f of
             None \<Rightarrow> 0
           | Some ev \<Rightarrow> if k_read_short w f then 0 else ev_count ev)"

definition read_calls :: "int list \<Rightarrow> syscall list" where
  "read_calls fs = map Sys_read (filter (\<lambda>f. f \<noteq> - 1) fs)"

definition raw_count :: "nat \<Rightarrow> 'd perfmon_stats_t \<Rightarrow> u64" where
  "raw_count k s =
     (if k = PERFMON_CYCLES then cycles s
      else if k = PERFMON_INSTRUCTIONS then instructions s
      else if k = PERFMON_BRANCHES then branches s
      else if k = PERFMON_BRANCH_MISSES then branch_misses s
      else if k = PERFMON_CACHE_REFERENCES then cache_references s
      else if k = PERFMON_CACHE_MISSES then cache_misses s
      else if k = PERFMON_DTLB_LOAD_MISSES then dtlb_load_misses s
      else if k = PERFMON_ITLB_MISSES then itlb_misses s
      else if k = PERFMON_PAGE_FAULTS then page_faults s
      else if k = PERFMON_MINOR_FAULTS then minor_faults s
      else if k = PERFMON_MAJOR_FAULTS then major_faults s
      else if k = PERFMON_CONTEXT_SWITCHES then context_switches s
      else if k = PERFMON_CPU_MIGRATIONS then cpu_migrations s
      else 0)"

text \<open>
  The attribute \<open>setup_counter\<close> builds for a type and a configuration, the
  thirteen acquisitions of perfmon_init as (kind, type, configuration) in the order of
  the source, and one acquisition as a step on the slots and the world.
\<close>

definition counter_attr :: "u32 \<Rightarrow> u64 \<Rightarrow> perf_event_attr" where
  "counter_attr ty config =
     \<lparr>pe_type = ty, pe_config = config, pe_disabled = True,
      pe_exclude_kernel = False, pe_exclude_hv = False, pe_inherit = True\<rparr>"

definition acquisitions :: "(nat \<times> u32 \<times> u64) list" where
  "acquisitions =
     [(PERFMON_CYCLES, PERF_TYPE_HARDWARE, PERF_COUNT_HW_CPU_CYCLES),
      (PERFMON_INSTRUCTIONS, PERF_TYPE_HARDWARE, PERF_COUNT_HW_INSTRUCTIONS),
      (PERFMON_BRANCHES, PERF_TYPE_HARDWARE, PERF_COUNT_HW_BRANCH_INSTRUCTIONS),
      (PERFMON_BRANCH_MISSES, PERF_TYPE_HARDWARE, PERF_COUNT_HW_BRANCH_MISSES),
      (PERFMON_CACHE_REFERENCES, PERF_TYPE_HARDWARE, PERF_COUNT_HW_CACHE_REFERENCES),
      (PERFMON_CACHE_MISSES, PERF_TYPE_HARDWARE, PERF_COUNT_HW_CACHE_MISSES),
      (PERFMON_PAGE_FAULTS, PERF_TYPE_SOFTWARE, PERF_COUNT_SW_PAGE_FAULTS),
      (PERFMON_MINOR_FAULTS, PERF_TYPE_SOFTWARE, PERF_COUNT_SW_PAGE_FAULTS_MIN),
      (PERFMON_MAJOR_FAULTS, PERF_TYPE_SOFTWARE, PERF_COUNT_SW_PAGE_FAULTS_MAJ),
      (PERFMON_CONTEXT_SWITCHES, PERF_TYPE_SOFTWARE, PERF_COUNT_SW_CONTEXT_SWITCHES),
      (PERFMON_CPU_MIGRATIONS, PERF_TYPE_SOFTWARE, PERF_COUNT_SW_CPU_MIGRATIONS),
      (PERFMON_DTLB_LOAD_MISSES, PERF_TYPE_HW_CACHE, dtlb_config),
      (PERFMON_ITLB_MISSES, PERF_TYPE_HW_CACHE, itlb_config)]"

definition acquire ::
  "perf_counter_t list \<times> world \<Rightarrow> nat \<times> u32 \<times> u64 \<Rightarrow> perf_counter_t list \<times> world" where
  "acquire s a = (case a of (k, ty, config) \<Rightarrow> init_counter k ty config s)"

text \<open>
  The slots as perfmon_init leaves them: every slot that holds a descriptor holds one
  that no other slot holds, and the event behind it is at zero and does not count.
\<close>

definition fresh_slots :: "perf_counter_t list \<Rightarrow> world \<Rightarrow> bool" where
  "fresh_slots cs w \<longleftrightarrow>
     (\<forall>i<length cs. fd (cs ! i) \<noteq> - 1 \<longrightarrow>
        fd (cs ! i) < int (k_next_fd w)
        \<and> k_events w (fd (cs ! i)) = Some \<lparr>ev_count = 0, ev_active = False\<rparr>
        \<and> (\<forall>j<length cs. j \<noteq> i \<longrightarrow> fd (cs ! j) \<noteq> fd (cs ! i)))"

text \<open>The invariant of the slots: a slot without a descriptor is not enabled.\<close>

definition slot_inv :: "perfmon_context \<Rightarrow> bool" where
  "slot_inv ctx \<longleftrightarrow>
     (\<forall>i<length (counters ctx). enabled (counters ctx ! i) \<longrightarrow> fd (counters ctx ! i) \<noteq> - 1)"

text \<open>
  The slot of kind \<open>k\<close> is parked: if it holds a descriptor, no other slot holds the
  same one and the event behind it does not count.
\<close>

definition parked :: "perf_counter_t list \<Rightarrow> world \<Rightarrow> nat \<Rightarrow> bool" where
  "parked cs w k \<longleftrightarrow>
     (fd (cs ! k) \<noteq> - 1 \<longrightarrow>
        (case k_events w (fd (cs ! k)) of None \<Rightarrow> False | Some ev \<Rightarrow> \<not> ev_active ev)
        \<and> (\<forall>j<length cs. j \<noteq> k \<longrightarrow> fd (cs ! j) \<noteq> fd (cs ! k)))"

text \<open>
  One measurement with the kind disabled first: \<open>perfmon_disable_counter\<close>,
  \<open>perfmon_start\<close>, the measured program, \<open>perfmon_stop\<close>. The result is \<open>true\<close>
  when all three calls returned \<open>true\<close>.
\<close>

definition disabled_measurement ::
  "'d double_ops \<Rightarrow> nat \<Rightarrow> (int \<Rightarrow> u64) \<Rightarrow> timespec \<Rightarrow> world \<Rightarrow> perfmon_context option
     \<Rightarrow> bool \<times> world \<times> perfmon_context option \<times> 'd perfmon_stats_t option" where
  "disabled_measurement ops kind delta t w ctxp =
     (let (r1, w1, c1) = perfmon_disable_counter w ctxp kind;
          (r2, w2, c2) = perfmon_start w1 c1;
          (r3, w3, c3, s) = perfmon_stop ops (workload delta t w2) c2 (Some (zero_stats ops))
      in (r1 \<and> r2 \<and> r3, w3, c3, s))"

subsection \<open>Concrete environments and sessions\<close>

text \<open>
  Doubles as the expressions that compute them: an interpretation of \<open>double_ops\<close>
  that can be evaluated and identifies no two computations.
\<close>

datatype dexpr =
    D_zero | D_100 | D_1e9
  | D_of_u64 u64 | D_of_long int
  | D_add dexpr dexpr | D_mul dexpr dexpr | D_div dexpr dexpr

definition sym_ops :: "dexpr double_ops" where
  "sym_ops = \<lparr>d_zero = D_zero, d_100 = D_100, d_1e9 = D_1e9, d_of_u64 = D_of_u64,
              d_of_long = D_of_long, d_add = D_add, d_mul = D_mul, d_div = D_div\<rparr>"

text \<open>
  A process at its start: no perf event open, descriptors from 3 on free, nothing
  logged. \<open>policy\<close> is the kernel's answer to \<open>perf_event_open\<close> and \<open>mem\<close> tells
  whether the context can be allocated.
\<close>

definition boot :: "(syscall list \<Rightarrow> perf_event_attr \<Rightarrow> nat option) \<Rightarrow> bool \<Rightarrow> world" where
  "boot policy mem =
     \<lparr>k_events = (\<lambda>_. None), k_inherited = (\<lambda>_. None), k_next_fd = 3, k_perf_policy = policy,
      k_read_short = (\<lambda>_. False), k_clock = \<lparr>tv_sec = 100, tv_nsec = 0\<rparr>, k_trace = [],
      k_calloc_ok = mem, k_strerror = (\<lambda>_. ''error''), errno = 0, error_msg = []\<rparr>"

text \<open>
  Three kernels: one that grants every event, one that refuses every event with
  \<open>EACCES\<close> (13), and one without a performance monitoring unit, which grants the
  software events and refuses the others with \<open>ENOENT\<close> (2).
\<close>

definition grant_all :: "syscall list \<Rightarrow> perf_event_attr \<Rightarrow> nat option" where
  "grant_all tr pe = None"

definition refuse_all :: "syscall list \<Rightarrow> perf_event_attr \<Rightarrow> nat option" where
  "refuse_all tr pe = Some 13"

definition software_only :: "syscall list \<Rightarrow> perf_event_attr \<Rightarrow> nat option" where
  "software_only tr pe = (if pe_type pe = PERF_TYPE_SOFTWARE then None else Some 2)"

text \<open>A session opened on the granting kernel, and the same session started.\<close>

definition demo_idle :: "perfmon_context option \<times> world" where
  "demo_idle = perfmon_init (boot grant_all True)"

definition demo_running :: "bool \<times> world \<times> perfmon_context option" where
  "demo_running = perfmon_start (snd demo_idle) (fst demo_idle)"

text \<open>
  The started session after the measured program has advanced every counting event
  by 5, with the cycles slot then disabled by the caller.
\<close>

definition demo_disabled_running :: "bool \<times> world \<times> perfmon_context option" where
  "demo_disabled_running =
     perfmon_disable_counter
       (workload (\<lambda>f. 5) \<lparr>tv_sec = 101, tv_nsec = 0\<rparr> (fst (snd demo_running)))
       (snd (snd demo_running)) PERFMON_CYCLES"

text \<open>
  The support probe followed by perfmon_init, on the kernel without a performance
  monitoring unit and on the kernel that refuses every event.
\<close>

definition soft_idle :: "perfmon_context option \<times> world" where
  "soft_idle = perfmon_init (snd (perfmon_is_supported (boot software_only True)))"

definition refused_idle :: "perfmon_context option \<times> world" where
  "refused_idle = perfmon_init (snd (perfmon_is_supported (boot refuse_all True)))"

text \<open>
  A first measurement on the granting kernel, during which every counting event
  advances by 5, and a second one on the same session with the cycles kind disabled
  first, during which every counting event advances by 7.
\<close>

definition demo_measured ::
  "bool \<times> world \<times> perfmon_context option \<times> dexpr perfmon_stats_t option" where
  "demo_measured =
     perfmon_stop sym_ops
       (workload (\<lambda>f. 5) \<lparr>tv_sec = 101, tv_nsec = 0\<rparr> (fst (snd demo_running)))
       (snd (snd demo_running)) (Some (zero_stats sym_ops))"

definition demo_second ::
  "bool \<times> world \<times> perfmon_context option \<times> dexpr perfmon_stats_t option" where
  "demo_second =
     disabled_measurement sym_ops PERFMON_CYCLES (\<lambda>f. 7) \<lparr>tv_sec = 102, tv_nsec = 0\<rparr>
       (fst (snd demo_measured)) (fst (snd (snd demo_measured)))"

text \<open>
  Doubles as rational numbers with exact operations: the arithmetic in which the
  formulas of the specification are written.
\<close>

definition exact_ops :: "rat double_ops" where
  "exact_ops = \<lparr>d_zero = 0, d_100 = 100, d_1e9 = 1000000000,
                d_of_u64 = (\<lambda>x. of_int (uint x)), d_of_long = of_int,
                d_add = (+), d_mul = (*), d_div = (/)\<rparr>"

text \<open>
  The started session stopped after the measured process has counted 4 cycles, 6
  instructions, 8 branches, 2 branch misses and no cache reference.
\<close>

definition demo_ratios ::
  "bool \<times> world \<times> perfmon_context option \<times> rat perfmon_stats_t option" where
  "demo_ratios =
     perfmon_stop exact_ops
       (workload (\<lambda>f. if f = 3 then 4 else if f = 4 then 6 else if f = 5 then 8
                       else if f = 6 then 2 else 0)
                 \<lparr>tv_sec = 101, tv_nsec = 0\<rparr> (fst (snd demo_running)))
       (snd (snd demo_running)) (Some (zero_stats exact_ops))"



section \<open>Properties\<close>

lemmas perfmon_counter_type_defs =
  PERFMON_CYCLES_def PERFMON_INSTRUCTIONS_def PERFMON_BRANCHES_def
  PERFMON_BRANCH_MISSES_def PERFMON_CACHE_REFERENCES_def PERFMON_CACHE_MISSES_def
  PERFMON_DTLB_LOAD_MISSES_def PERFMON_ITLB_MISSES_def PERFMON_PAGE_FAULTS_def
  PERFMON_MINOR_FAULTS_def PERFMON_MAJOR_FAULTS_def PERFMON_CONTEXT_SWITCHES_def
  PERFMON_CPU_MIGRATIONS_def

lemma demo_running_ctx:
  "snd (snd demo_running) \<noteq> None \<and> is_running (the (snd (snd demo_running)))"
  by code_simp

lemma demo_idle_ctx:
  "fst demo_idle \<noteq> None \<and> \<not> is_running (the (fst demo_idle))"
  by code_simp

subsection \<open>The two refused transitions\<close>

text \<open>
  C1. On every session that is running, \<open>perfmon_start\<close> returns \<open>false\<close> and leaves
  the message "Monitoring already running". The context comes back as it was (still
  running, the same \<open>start_time\<close>, the same slots), and the world differs from the one
  before the call in \<open>error_msg\<close> only: no system call was made, so no counter was
  reset or enabled.
\<close>

theorem start_while_running:
  assumes "is_running ctx"
  shows "perfmon_start w (Some ctx) =
           (False, w\<lparr>error_msg := ''Monitoring already running''\<rparr>, Some ctx)"
  using assms by (simp add: perfmon_start_def set_error_def)

theorem start_while_running_witness:
  "is_running (the (snd (snd demo_running))) \<and>
   perfmon_start (fst (snd demo_running)) (Some (the (snd (snd demo_running)))) =
     (False, (fst (snd demo_running))\<lparr>error_msg := ''Monitoring already running''\<rparr>,
      Some (the (snd (snd demo_running))))"
proof -
  have h: "is_running (the (snd (snd demo_running)))"
    using demo_running_ctx by simp
  show ?thesis
    using h start_while_running [OF h, of "fst (snd demo_running)"] by (rule conjI)
qed

text \<open>
  C2. On every session that is idle, \<open>perfmon_stop\<close> returns \<open>false\<close> and leaves the
  message "Monitoring not running". The context and the caller's statistics record
  (or its \<open>NULL\<close> pointer) come back as they were, and the world differs in
  \<open>error_msg\<close> only.
\<close>

theorem stop_while_idle:
  assumes "\<not> is_running ctx"
  shows "perfmon_stop ops w (Some ctx) stats =
           (False, w\<lparr>error_msg := ''Monitoring not running''\<rparr>, Some ctx, stats)"
  using assms by (simp add: perfmon_stop_def set_error_def)

theorem stop_while_idle_witness:
  "\<not> is_running (the (fst demo_idle)) \<and>
   perfmon_stop sym_ops (snd demo_idle) (Some (the (fst demo_idle))) (Some (zero_stats sym_ops)) =
     (False, (snd demo_idle)\<lparr>error_msg := ''Monitoring not running''\<rparr>,
      Some (the (fst demo_idle)), Some (zero_stats sym_ops))"
proof -
  have h: "\<not> is_running (the (fst demo_idle))"
    using demo_idle_ctx by simp
  show ?thesis
    using h stop_while_idle [OF h, of sym_ops "snd demo_idle" "Some (zero_stats sym_ops)"]
    by (rule conjI)
qed

subsection \<open>The loops over the slots\<close>

lemma reset_value_frame [simp]:
  "reset_value (w\<lparr>k_trace := tr\<rparr>) f = reset_value w f"
  "reset_value (w\<lparr>k_events := es\<rparr>) f = reset_value w f"
  "reset_value (w\<lparr>k_clock := t\<rparr>) f = reset_value w f"
  by (simp_all add: reset_value_def)

lemma sys_ioctl_eq:
  "sys_ioctl w f req =
     w\<lparr>k_trace := k_trace w @ [Sys_ioctl f req],
       k_events := (k_events w)(f := map_option (apply_req (reset_value w f) req) (k_events w f))\<rparr>"
  by (cases "k_events w f") (simp_all add: sys_ioctl_def log_call_def fun_upd_idem)

lemma counter_loop_ioctls:
  assumes body: "\<And>f w. body f w =
      w\<lparr>k_trace := k_trace w @ tr f,
        k_events := (k_events w)(f := map_option (g (reset_value w f)) (k_events w f))\<rparr>"
    and idem: "\<And>x e. g x (g x e) = g x e"
  shows "counter_loop body cs is w =
      w\<lparr>k_trace := k_trace w @ concat (map tr (armed_fds cs is)),
        k_events := (\<lambda>f. if f \<in> set (armed_fds cs is)
                          then map_option (g (reset_value w f)) (k_events w f)
                          else k_events w f)\<rparr>"
proof (induction "is" arbitrary: w)
  case Nil
  show ?case by (simp add: armed_fds_def)
next
  case (Cons i "is")
  have mm: "\<And>x y. map_option (g x) (map_option (g x) y) = map_option (g x) y"
    by (simp add: option.map_comp comp_def idem)
  show ?case
  proof (cases "armed cs i")
    case False
    have fds: "armed_fds cs (i # is) = armed_fds cs is"
      using False by (simp add: armed_fds_def)
    have step: "counter_loop body cs (i # is) w = counter_loop body cs is w"
      using False by (auto simp: armed_def)
    show ?thesis
      unfolding step fds by (rule Cons.IH)
  next
    case True
    have fds: "armed_fds cs (i # is) = fd (cs ! i) # armed_fds cs is"
      using True by (simp add: armed_fds_def)
    have step: "counter_loop body cs (i # is) w = counter_loop body cs is (body (fd (cs ! i)) w)"
      using True by (simp add: armed_def)
    show ?thesis
      unfolding step Cons.IH fds
      by (simp add: body mm fun_eq_iff)
  qed
qed

lemma apply_req_simps:
  "apply_req x PERF_EVENT_IOC_RESET = (\<lambda>ev. ev\<lparr>ev_count := x\<rparr>)"
  "apply_req x PERF_EVENT_IOC_ENABLE = (\<lambda>ev. ev\<lparr>ev_active := True\<rparr>)"
  "apply_req x PERF_EVENT_IOC_DISABLE = (\<lambda>ev. ev\<lparr>ev_active := False\<rparr>)"
  by (rule ext, simp add: apply_req_def)+

lemma reset_enable_eq:
  "reset_enable f w =
     w\<lparr>k_trace := k_trace w @ [Sys_ioctl f PERF_EVENT_IOC_RESET, Sys_ioctl f PERF_EVENT_IOC_ENABLE],
       k_events := (k_events w)(f := map_option (\<lambda>ev. ev\<lparr>ev_count := reset_value w f, ev_active := True\<rparr>)
                                        (k_events w f))\<rparr>"
  by (simp add: reset_enable_def sys_ioctl_eq apply_req_simps option.map_comp comp_def)


lemma disable_event_eq:
  "disable_event f w =
     w\<lparr>k_trace := k_trace w @ [Sys_ioctl f PERF_EVENT_IOC_DISABLE],
       k_events := (k_events w)(f := map_option (\<lambda>ev. ev\<lparr>ev_active := False\<rparr>) (k_events w f))\<rparr>"
  by (simp add: disable_event_def sys_ioctl_eq apply_req_simps)

lemma perfmon_start_idle:
  assumes "\<not> is_running ctx"
  shows "perfmon_start w (Some ctx) =
     (True,
      w\<lparr>k_trace := k_trace w
           @ concat (map (\<lambda>f. [Sys_ioctl f PERF_EVENT_IOC_RESET, Sys_ioctl f PERF_EVENT_IOC_ENABLE])
                         (armed_fds (counters ctx) [0..<PERFMON_MAX_COUNTERS]))
           @ [Sys_clock_gettime],
        k_events := (\<lambda>f. if f \<in> set (armed_fds (counters ctx) [0..<PERFMON_MAX_COUNTERS])
                          then map_option (\<lambda>ev. ev\<lparr>ev_count := reset_value w f, ev_active := True\<rparr>) (k_events w f)
                          else k_events w f)\<rparr>,
      Some (ctx\<lparr>start_time := k_clock w, is_running := True\<rparr>))"
proof -
  have loop: "counter_loop reset_enable (counters ctx) [0..<PERFMON_MAX_COUNTERS] w =
      w\<lparr>k_trace := k_trace w
           @ concat (map (\<lambda>f. [Sys_ioctl f PERF_EVENT_IOC_RESET, Sys_ioctl f PERF_EVENT_IOC_ENABLE])
                         (armed_fds (counters ctx) [0..<PERFMON_MAX_COUNTERS])),
        k_events := (\<lambda>f. if f \<in> set (armed_fds (counters ctx) [0..<PERFMON_MAX_COUNTERS])
                          then map_option (\<lambda>ev. ev\<lparr>ev_count := reset_value w f, ev_active := True\<rparr>) (k_events w f)
                          else k_events w f)\<rparr>"
    by (rule counter_loop_ioctls
              [where g = "\<lambda>x ev. ev\<lparr>ev_count := x, ev_active := True\<rparr>"])
       (simp_all add: reset_enable_eq)
  show ?thesis
    using assms by (simp add: perfmon_start_def loop clock_gettime_def log_call_def)
qed



subsection \<open>Start and reset\<close>

text \<open>
  C5. On every idle session \<open>perfmon_start\<close> returns \<open>true\<close>. The system calls it
  adds to the log are, for every slot that is enabled and holds a descriptor, in the
  order of the slots, the \<open>RESET\<close> of that descriptor immediately followed by its
  \<open>ENABLE\<close>, and after all of them one \<open>clock_gettime\<close>. Every perf event behind
  such a descriptor is left counting, at the value the \<open>RESET\<close> leaves (zero, but for
  what exited children had counted), every other event as it was. The context comes
  back with the clock value as \<open>start_time\<close> and with \<open>is_running\<close> set, its slots
  and \<open>end_time\<close> unchanged.
\<close>

theorem start_from_idle:
  assumes "\<not> is_running ctx"
  shows "perfmon_start w (Some ctx) =
     (True,
      w\<lparr>k_trace := k_trace w
           @ concat (map (\<lambda>f. [Sys_ioctl f PERF_EVENT_IOC_RESET, Sys_ioctl f PERF_EVENT_IOC_ENABLE])
                         (armed_fds (counters ctx) [0..<PERFMON_MAX_COUNTERS]))
           @ [Sys_clock_gettime],
        k_events := (\<lambda>f. if f \<in> set (armed_fds (counters ctx) [0..<PERFMON_MAX_COUNTERS])
                          then map_option (\<lambda>ev. ev\<lparr>ev_count := reset_value w f, ev_active := True\<rparr>) (k_events w f)
                          else k_events w f)\<rparr>,
      Some (ctx\<lparr>start_time := k_clock w, is_running := True\<rparr>))"
  using assms by (rule perfmon_start_idle)

theorem start_from_idle_witness:
  "\<not> is_running (the (fst demo_idle)) \<and>
   fst (perfmon_start (snd demo_idle) (Some (the (fst demo_idle)))) = True \<and>
   k_trace (fst (snd (perfmon_start (snd demo_idle) (Some (the (fst demo_idle)))))) =
     k_trace (snd demo_idle) @
     [Sys_ioctl 3 PERF_EVENT_IOC_RESET, Sys_ioctl 3 PERF_EVENT_IOC_ENABLE,
      Sys_ioctl 4 PERF_EVENT_IOC_RESET, Sys_ioctl 4 PERF_EVENT_IOC_ENABLE,
      Sys_ioctl 5 PERF_EVENT_IOC_RESET, Sys_ioctl 5 PERF_EVENT_IOC_ENABLE,
      Sys_ioctl 6 PERF_EVENT_IOC_RESET, Sys_ioctl 6 PERF_EVENT_IOC_ENABLE,
      Sys_ioctl 7 PERF_EVENT_IOC_RESET, Sys_ioctl 7 PERF_EVENT_IOC_ENABLE,
      Sys_ioctl 8 PERF_EVENT_IOC_RESET, Sys_ioctl 8 PERF_EVENT_IOC_ENABLE,
      Sys_ioctl 14 PERF_EVENT_IOC_RESET, Sys_ioctl 14 PERF_EVENT_IOC_ENABLE,
      Sys_ioctl 15 PERF_EVENT_IOC_RESET, Sys_ioctl 15 PERF_EVENT_IOC_ENABLE,
      Sys_ioctl 9 PERF_EVENT_IOC_RESET, Sys_ioctl 9 PERF_EVENT_IOC_ENABLE,
      Sys_ioctl 10 PERF_EVENT_IOC_RESET, Sys_ioctl 10 PERF_EVENT_IOC_ENABLE,
      Sys_ioctl 11 PERF_EVENT_IOC_RESET, Sys_ioctl 11 PERF_EVENT_IOC_ENABLE,
      Sys_ioctl 12 PERF_EVENT_IOC_RESET, Sys_ioctl 12 PERF_EVENT_IOC_ENABLE,
      Sys_ioctl 13 PERF_EVENT_IOC_RESET, Sys_ioctl 13 PERF_EVENT_IOC_ENABLE,
      Sys_clock_gettime]"
proof -
  have h: "\<not> is_running (the (fst demo_idle))"
    using demo_idle_ctx by simp
  have fds: "armed_fds (counters (the (fst demo_idle))) [0..<PERFMON_MAX_COUNTERS] =
               [3, 4, 5, 6, 7, 8, 14, 15, 9, 10, 11, 12, 13]"
    by code_simp
  show ?thesis
    using h by (simp add: start_from_idle [OF h] fds)
qed




subsection \<open>Stop\<close>

lemma read_counter_eq:
  "read_counter w f = (counter_value w f, w\<lparr>k_trace := k_trace w @ read_calls [f]\<rparr>)"
  by (simp add: read_counter_def counter_value_def read_calls_def sys_read_def log_call_def
           split: option.split)

lemma counter_value_trace [simp]:
  "counter_value (w\<lparr>k_trace := tr\<rparr>) f = counter_value w f"
  by (simp add: counter_value_def split: option.split)

lemma read_all_counters_world:
  "snd (read_all_counters ops ctx w) =
     w\<lparr>k_trace := k_trace w @ read_calls (map (\<lambda>k. fd (counters ctx ! k)) [0..<PERFMON_MAX_COUNTERS])\<rparr>"
proof -
  have idx: "[0..<PERFMON_MAX_COUNTERS] = [PERFMON_CYCLES, PERFMON_INSTRUCTIONS, PERFMON_BRANCHES,
      PERFMON_BRANCH_MISSES, PERFMON_CACHE_REFERENCES, PERFMON_CACHE_MISSES,
      PERFMON_DTLB_LOAD_MISSES, PERFMON_ITLB_MISSES, PERFMON_PAGE_FAULTS, PERFMON_MINOR_FAULTS,
      PERFMON_MAJOR_FAULTS, PERFMON_CONTEXT_SWITCHES, PERFMON_CPU_MIGRATIONS]"
    by (simp add: perfmon_counter_type_defs PERFMON_MAX_COUNTERS_def upt_rec)
  have app: "\<And>x y ys. read_calls (x # y # ys) = read_calls [x] @ read_calls (y # ys)"
    by (simp add: read_calls_def)
  show ?thesis
    unfolding idx
    by (simp add: read_all_counters_def read_counter_eq Let_def app)
qed


lemma read_all_counters_stats:
  "fst (read_all_counters ops ctx w) =
     \<lparr>cycles = counter_value w (fd (counters ctx ! PERFMON_CYCLES)),
      instructions = counter_value w (fd (counters ctx ! PERFMON_INSTRUCTIONS)),
      branches = counter_value w (fd (counters ctx ! PERFMON_BRANCHES)),
      branch_misses = counter_value w (fd (counters ctx ! PERFMON_BRANCH_MISSES)),
      cache_references = counter_value w (fd (counters ctx ! PERFMON_CACHE_REFERENCES)),
      cache_misses = counter_value w (fd (counters ctx ! PERFMON_CACHE_MISSES)),
      dtlb_load_misses = counter_value w (fd (counters ctx ! PERFMON_DTLB_LOAD_MISSES)),
      itlb_misses = counter_value w (fd (counters ctx ! PERFMON_ITLB_MISSES)),
      page_faults = counter_value w (fd (counters ctx ! PERFMON_PAGE_FAULTS)),
      minor_faults = counter_value w (fd (counters ctx ! PERFMON_MINOR_FAULTS)),
      major_faults = counter_value w (fd (counters ctx ! PERFMON_MAJOR_FAULTS)),
      context_switches = counter_value w (fd (counters ctx ! PERFMON_CONTEXT_SWITCHES)),
      cpu_migrations = counter_value w (fd (counters ctx ! PERFMON_CPU_MIGRATIONS)),
      elapsed_time_sec = d_zero ops, insn_per_cycle = d_zero ops,
      branch_miss_rate = d_zero ops, cache_miss_rate = d_zero ops\<rparr>"
  by (simp add: read_all_counters_def read_counter_eq Let_def zero_stats_def)

lemma read_all_counters_raw:
  assumes "k < PERFMON_MAX_COUNTERS"
  shows "raw_count k (fst (read_all_counters ops ctx w)) = counter_value w (fd (counters ctx ! k))"
proof -
  from assms have "k = 0 \<or> k = 1 \<or> k = 2 \<or> k = 3 \<or> k = 4 \<or> k = 5 \<or> k = 6 \<or> k = 7 \<or> k = 8
      \<or> k = 9 \<or> k = 10 \<or> k = 11 \<or> k = 12"
    unfolding PERFMON_MAX_COUNTERS_def by arith
  then show ?thesis
    unfolding read_all_counters_stats
    by (elim disjE) (simp_all add: raw_count_def perfmon_counter_type_defs)
qed

lemma raw_count_updates [simp]:
  "raw_count k (s\<lparr>elapsed_time_sec := x\<rparr>) = raw_count k s"
  "raw_count k (s\<lparr>insn_per_cycle := x\<rparr>) = raw_count k s"
  "raw_count k (s\<lparr>branch_miss_rate := x\<rparr>) = raw_count k s"
  "raw_count k (s\<lparr>cache_miss_rate := x\<rparr>) = raw_count k s"
  by (simp_all add: raw_count_def)

lemma raw_count_derived_metrics [simp]:
  "raw_count k (derived_metrics ops s) = raw_count k s"
  unfolding derived_metrics_def Let_def
  by (simp only: raw_count_updates if_distrib [of "raw_count k"] if_cancel)

lemma collect_stats_raw:
  assumes "k < PERFMON_MAX_COUNTERS"
  shows "raw_count k (fst (collect_stats ops ctx w)) = counter_value w (fd (counters ctx ! k))"
  using read_all_counters_raw [OF assms, of ops ctx w]
  by (simp add: collect_stats_def Let_def split_def)

lemma collect_stats_world:
  "snd (collect_stats ops ctx w) =
     w\<lparr>k_trace := k_trace w @ read_calls (map (\<lambda>k. fd (counters ctx ! k)) [0..<PERFMON_MAX_COUNTERS])\<rparr>"
  using read_all_counters_world [of ops ctx w]
  by (simp add: collect_stats_def Let_def split_def)


lemma disable_loop_eq:
  "counter_loop disable_event cs is w =
     w\<lparr>k_trace := k_trace w @ map (\<lambda>f. Sys_ioctl f PERF_EVENT_IOC_DISABLE) (armed_fds cs is),
       k_events := (\<lambda>f. if f \<in> set (armed_fds cs is)
                         then map_option (\<lambda>ev. ev\<lparr>ev_active := False\<rparr>) (k_events w f)
                         else k_events w f)\<rparr>"
proof -
  have c: "map (\<lambda>f. Sys_ioctl f PERF_EVENT_IOC_DISABLE) (armed_fds cs is) =
           concat (map (\<lambda>f. [Sys_ioctl f PERF_EVENT_IOC_DISABLE]) (armed_fds cs is))"
    by (induction "armed_fds cs is") simp_all
  show ?thesis
    unfolding c
    by (rule counter_loop_ioctls [where g = "\<lambda>x ev. ev\<lparr>ev_active := False\<rparr>"])
       (simp_all add: disable_event_eq)
qed

lemma counter_value_events:
  assumes "k_read_short w' = k_read_short w"
    and "map_option ev_count (k_events w' f) = map_option ev_count (k_events w f)"
  shows "counter_value w' f = counter_value w f"
  using assms by (auto simp: counter_value_def split: option.splits)

lemma perfmon_stop_running:
  assumes "is_running ctx"
  shows "\<exists>s w'. perfmon_stop ops w (Some ctx) (Some s0) =
            (True, w', Some (ctx\<lparr>end_time := k_clock w, is_running := False\<rparr>), Some s)
          \<and> (\<forall>k<PERFMON_MAX_COUNTERS. raw_count k s = counter_value w (fd (counters ctx ! k)))
          \<and> w' = w\<lparr>k_trace := k_trace w @ [Sys_clock_gettime]
                       @ map (\<lambda>f. Sys_ioctl f PERF_EVENT_IOC_DISABLE)
                             (armed_fds (counters ctx) [0..<PERFMON_MAX_COUNTERS])
                       @ read_calls (map (\<lambda>k. fd (counters ctx ! k)) [0..<PERFMON_MAX_COUNTERS]),
                     k_events := (\<lambda>f. if f \<in> set (armed_fds (counters ctx) [0..<PERFMON_MAX_COUNTERS])
                                       then map_option (\<lambda>ev. ev\<lparr>ev_active := False\<rparr>) (k_events w f)
                                       else k_events w f)\<rparr>"
proof -
  define ctx1 where "ctx1 = ctx\<lparr>end_time := k_clock w\<rparr>"
  define wd where "wd = counter_loop disable_event (counters ctx) [0..<PERFMON_MAX_COUNTERS]
                          (w\<lparr>k_trace := k_trace w @ [Sys_clock_gettime]\<rparr>)"
  have stop: "perfmon_stop ops w (Some ctx) (Some s0) =
      (True, snd (collect_stats ops ctx1 wd), Some (ctx\<lparr>end_time := k_clock w, is_running := False\<rparr>),
       Some (fst (collect_stats ops ctx1 wd)))"
    using assms
    by (simp add: perfmon_stop_def clock_gettime_def log_call_def Let_def split_def ctx1_def wd_def)
  have wd: "wd = w\<lparr>k_trace := k_trace w @ [Sys_clock_gettime]
                       @ map (\<lambda>f. Sys_ioctl f PERF_EVENT_IOC_DISABLE)
                             (armed_fds (counters ctx) [0..<PERFMON_MAX_COUNTERS]),
                     k_events := (\<lambda>f. if f \<in> set (armed_fds (counters ctx) [0..<PERFMON_MAX_COUNTERS])
                                       then map_option (\<lambda>ev. ev\<lparr>ev_active := False\<rparr>) (k_events w f)
                                       else k_events w f)\<rparr>"
    unfolding wd_def disable_loop_eq by (simp cong: if_cong)
  have cv: "counter_value wd f = counter_value w f" for f
    by (rule counter_value_events) (simp_all add: wd option.map_comp comp_def)
  have raw: "\<forall>k<PERFMON_MAX_COUNTERS.
      raw_count k (fst (collect_stats ops ctx1 wd)) = counter_value w (fd (counters ctx ! k))"
    by (simp add: collect_stats_raw cv ctx1_def)
  have world: "snd (collect_stats ops ctx1 wd) =
      w\<lparr>k_trace := k_trace w @ [Sys_clock_gettime]
                       @ map (\<lambda>f. Sys_ioctl f PERF_EVENT_IOC_DISABLE)
                             (armed_fds (counters ctx) [0..<PERFMON_MAX_COUNTERS])
                       @ read_calls (map (\<lambda>k. fd (counters ctx ! k)) [0..<PERFMON_MAX_COUNTERS]),
                     k_events := (\<lambda>f. if f \<in> set (armed_fds (counters ctx) [0..<PERFMON_MAX_COUNTERS])
                                       then map_option (\<lambda>ev. ev\<lparr>ev_active := False\<rparr>) (k_events w f)
                                       else k_events w f)\<rparr>"
    unfolding collect_stats_world by (simp add: wd ctx1_def)
  show ?thesis
    unfolding stop using raw world by blast
qed

text \<open>
  C10. On every running session \<open>perfmon_stop\<close>, given a statistics record, returns
  \<open>true\<close> and fills the raw count of every kind with what \<open>read_counter\<close> obtains
  for the descriptor of that kind's slot in the world the call started in. The enabled
  flag takes no part in it: for every slot that holds a descriptor whose event can be
  read, the raw count is the value the event holds, whether the slot is enabled or not.
  The log shows where the flag does count: after \<open>clock_gettime\<close> comes one
  \<open>DISABLE\<close> for every slot that is enabled and holds a descriptor, then one \<open>read\<close>
  for every slot that holds a descriptor.
\<close>

theorem stop_reads_every_descriptor:
  assumes "is_running ctx"
  shows "\<exists>s w'. perfmon_stop ops w (Some ctx) (Some s0) =
            (True, w', Some (ctx\<lparr>end_time := k_clock w, is_running := False\<rparr>), Some s)
          \<and> (\<forall>k<PERFMON_MAX_COUNTERS. raw_count k s = counter_value w (fd (counters ctx ! k)))
          \<and> (\<forall>k<PERFMON_MAX_COUNTERS. \<forall>ev.
                 fd (counters ctx ! k) \<noteq> - 1 \<and> k_events w (fd (counters ctx ! k)) = Some ev
                 \<and> \<not> k_read_short w (fd (counters ctx ! k))
                 \<longrightarrow> raw_count k s = ev_count ev)
          \<and> k_trace w' = k_trace w @ [Sys_clock_gettime]
                       @ map (\<lambda>f. Sys_ioctl f PERF_EVENT_IOC_DISABLE)
                             (armed_fds (counters ctx) [0..<PERFMON_MAX_COUNTERS])
                       @ read_calls (map (\<lambda>k. fd (counters ctx ! k)) [0..<PERFMON_MAX_COUNTERS])"
proof -
  from perfmon_stop_running [OF assms, of ops w s0]
  obtain s w' where stop: "perfmon_stop ops w (Some ctx) (Some s0) =
            (True, w', Some (ctx\<lparr>end_time := k_clock w, is_running := False\<rparr>), Some s)"
    and raw: "\<forall>k<PERFMON_MAX_COUNTERS. raw_count k s = counter_value w (fd (counters ctx ! k))"
    and w': "w' = w\<lparr>k_trace := k_trace w @ [Sys_clock_gettime]
                       @ map (\<lambda>f. Sys_ioctl f PERF_EVENT_IOC_DISABLE)
                             (armed_fds (counters ctx) [0..<PERFMON_MAX_COUNTERS])
                       @ read_calls (map (\<lambda>k. fd (counters ctx ! k)) [0..<PERFMON_MAX_COUNTERS]),
                     k_events := (\<lambda>f. if f \<in> set (armed_fds (counters ctx) [0..<PERFMON_MAX_COUNTERS])
                                       then map_option (\<lambda>ev. ev\<lparr>ev_active := False\<rparr>) (k_events w f)
                                       else k_events w f)\<rparr>"
    by blast
  have held: "\<forall>k<PERFMON_MAX_COUNTERS. \<forall>ev.
                 fd (counters ctx ! k) \<noteq> - 1 \<and> k_events w (fd (counters ctx ! k)) = Some ev
                 \<and> \<not> k_read_short w (fd (counters ctx ! k))
                 \<longrightarrow> raw_count k s = ev_count ev"
    using raw by (simp add: counter_value_def)
  have tr: "k_trace w' = k_trace w @ [Sys_clock_gettime]
                       @ map (\<lambda>f. Sys_ioctl f PERF_EVENT_IOC_DISABLE)
                             (armed_fds (counters ctx) [0..<PERFMON_MAX_COUNTERS])
                       @ read_calls (map (\<lambda>k. fd (counters ctx ! k)) [0..<PERFMON_MAX_COUNTERS])"
    by (simp add: w')
  from stop raw held tr show ?thesis by blast
qed

lemma demo_disabled_running_facts:
  "is_running (the (snd (snd demo_disabled_running)))"
  "\<not> enabled (counters (the (snd (snd demo_disabled_running))) ! PERFMON_CYCLES)"
  "fd (counters (the (snd (snd demo_disabled_running))) ! PERFMON_CYCLES) = 3"
  "k_events (fst (snd demo_disabled_running)) 3 = Some \<lparr>ev_count = 5, ev_active = True\<rparr>"
  "\<not> k_read_short (fst (snd demo_disabled_running)) 3"
  by code_simp+

theorem stop_reads_every_descriptor_witness:
  "is_running (the (snd (snd demo_disabled_running))) \<and>
   \<not> enabled (counters (the (snd (snd demo_disabled_running))) ! PERFMON_CYCLES) \<and>
   (\<exists>s w' c'. perfmon_stop sym_ops (fst (snd demo_disabled_running))
                  (Some (the (snd (snd demo_disabled_running)))) (Some (zero_stats sym_ops)) =
                (True, w', c', Some s) \<and> cycles s = 5)"
proof -
  note f = demo_disabled_running_facts
  from stop_reads_every_descriptor [OF f(1), of sym_ops "fst (snd demo_disabled_running)" "zero_stats sym_ops"]
  obtain s w' c' where stop: "perfmon_stop sym_ops (fst (snd demo_disabled_running))
                  (Some (the (snd (snd demo_disabled_running)))) (Some (zero_stats sym_ops)) =
                (True, w', c', Some s)"
    and held: "\<forall>k<PERFMON_MAX_COUNTERS. \<forall>ev.
                 fd (counters (the (snd (snd demo_disabled_running))) ! k) \<noteq> - 1
                 \<and> k_events (fst (snd demo_disabled_running))
                       (fd (counters (the (snd (snd demo_disabled_running))) ! k)) = Some ev
                 \<and> \<not> k_read_short (fst (snd demo_disabled_running))
                       (fd (counters (the (snd (snd demo_disabled_running))) ! k))
                 \<longrightarrow> raw_count k s = ev_count ev"
    by blast
  have "PERFMON_CYCLES < PERFMON_MAX_COUNTERS"
    by (simp add: PERFMON_CYCLES_def PERFMON_MAX_COUNTERS_def)
  with held f have "raw_count PERFMON_CYCLES s = 5"
    by fastforce
  then have "cycles s = 5"
    by (simp add: raw_count_def)
  with stop f show ?thesis by blast
qed

subsection \<open>The derived metrics\<close>

lemma derived_metrics_fields:
  "insn_per_cycle (derived_metrics ops s) =
     (if 0 < cycles (derived_metrics ops s)
      then d_div ops (d_of_u64 ops (instructions (derived_metrics ops s)))
                     (d_of_u64 ops (cycles (derived_metrics ops s)))
      else d_zero ops)"
  "branch_miss_rate (derived_metrics ops s) =
     (if 0 < branches (derived_metrics ops s)
      then d_mul ops (d_div ops (d_of_u64 ops (branch_misses (derived_metrics ops s)))
                                (d_of_u64 ops (branches (derived_metrics ops s)))) (d_100 ops)
      else d_zero ops)"
  "cache_miss_rate (derived_metrics ops s) =
     (if 0 < cache_references (derived_metrics ops s)
      then d_mul ops (d_div ops (d_of_u64 ops (cache_misses (derived_metrics ops s)))
                                (d_of_u64 ops (cache_references (derived_metrics ops s)))) (d_100 ops)
      else d_zero ops)"
  by (simp_all add: derived_metrics_def Let_def)

lemma collect_stats_derived:
  "fst (collect_stats ops ctx w) =
     derived_metrics ops ((fst (read_all_counters ops ctx w))
        \<lparr>elapsed_time_sec := timespec_diff_sec ops (start_time ctx) (end_time ctx)\<rparr>)"
  by (simp add: collect_stats_def Let_def split_def)

lemma perfmon_stop_stats:
  assumes "perfmon_stop ops w (Some ctx) (Some s0) = (True, w', c', Some s)"
  shows "\<exists>t. s = derived_metrics ops t"
proof (cases "is_running ctx")
  case False
  with assms show ?thesis by (simp add: perfmon_stop_def)
next
  case True
  define ctx1 where "ctx1 = ctx\<lparr>end_time := k_clock w\<rparr>"
  define wd where "wd = counter_loop disable_event (counters ctx) [0..<PERFMON_MAX_COUNTERS]
                          (w\<lparr>k_trace := k_trace w @ [Sys_clock_gettime]\<rparr>)"
  have "perfmon_stop ops w (Some ctx) (Some s0) =
      (True, snd (collect_stats ops ctx1 wd), Some (ctx\<lparr>end_time := k_clock w, is_running := False\<rparr>),
       Some (fst (collect_stats ops ctx1 wd)))"
    using True
    by (simp add: perfmon_stop_def clock_gettime_def log_call_def Let_def split_def ctx1_def wd_def)
  with assms have "s = fst (collect_stats ops ctx1 wd)"
    by simp
  then show ?thesis
    unfolding collect_stats_derived by blast
qed

lemma exact_ops_exchange:
  "\<forall>a b c. d_mul exact_ops (d_div exact_ops a b) c = d_div exact_ops (d_mul exact_ops c a) b"
  by (simp add: exact_ops_def)

lemma demo_ratios_counts:
  "counter_value (workload (\<lambda>f. if f = 3 then 4 else if f = 4 then 6 else if f = 5 then 8
                                  else if f = 6 then 2 else 0)
                 \<lparr>tv_sec = 101, tv_nsec = 0\<rparr> (fst (snd demo_running)))
     (fd (counters (the (snd (snd demo_running))) ! PERFMON_CYCLES)) = 4"
  "counter_value (workload (\<lambda>f. if f = 3 then 4 else if f = 4 then 6 else if f = 5 then 8
                                  else if f = 6 then 2 else 0)
                 \<lparr>tv_sec = 101, tv_nsec = 0\<rparr> (fst (snd demo_running)))
     (fd (counters (the (snd (snd demo_running))) ! PERFMON_INSTRUCTIONS)) = 6"
  "counter_value (workload (\<lambda>f. if f = 3 then 4 else if f = 4 then 6 else if f = 5 then 8
                                  else if f = 6 then 2 else 0)
                 \<lparr>tv_sec = 101, tv_nsec = 0\<rparr> (fst (snd demo_running)))
     (fd (counters (the (snd (snd demo_running))) ! PERFMON_BRANCHES)) = 8"
  "counter_value (workload (\<lambda>f. if f = 3 then 4 else if f = 4 then 6 else if f = 5 then 8
                                  else if f = 6 then 2 else 0)
                 \<lparr>tv_sec = 101, tv_nsec = 0\<rparr> (fst (snd demo_running)))
     (fd (counters (the (snd (snd demo_running))) ! PERFMON_BRANCH_MISSES)) = 2"
  "counter_value (workload (\<lambda>f. if f = 3 then 4 else if f = 4 then 6 else if f = 5 then 8
                                  else if f = 6 then 2 else 0)
                 \<lparr>tv_sec = 101, tv_nsec = 0\<rparr> (fst (snd demo_running)))
     (fd (counters (the (snd (snd demo_running))) ! PERFMON_CACHE_REFERENCES)) = 0"
  by code_simp+

text \<open>
  C3. In every statistics record that a successful \<open>perfmon_stop\<close> has filled, and
  whatever the arithmetic of doubles is: \<open>insn_per_cycle\<close> is the double quotient of
  the instructions and the cycles counts when the cycles count is positive, and \<open>0.0\<close>
  otherwise; \<open>branch_miss_rate\<close> and \<open>cache_miss_rate\<close> are the double quotient of
  the misses and of the branches, respectively the cache references, multiplied by
  \<open>100.0\<close>, when that denominator count is positive, and \<open>0.0\<close> otherwise. The
  operands of every division are the casts to double of the 64-bit counts as read, so
  no count is divided or truncated as an integer. The source multiplies the quotient
  by \<open>100.0\<close>; where the multiplication and the division can be exchanged, as in exact
  arithmetic, the rates are \<open>100 * misses / denominator\<close> as the claim writes them.
\<close>

theorem snapshot_derived_metrics:
  assumes "perfmon_stop ops w (Some ctx) (Some s0) = (True, w', c', Some s)"
  shows "insn_per_cycle s =
           (if 0 < cycles s
            then d_div ops (d_of_u64 ops (instructions s)) (d_of_u64 ops (cycles s))
            else d_zero ops)
   \<and> branch_miss_rate s =
           (if 0 < branches s
            then d_mul ops (d_div ops (d_of_u64 ops (branch_misses s)) (d_of_u64 ops (branches s)))
                           (d_100 ops)
            else d_zero ops)
   \<and> cache_miss_rate s =
           (if 0 < cache_references s
            then d_mul ops (d_div ops (d_of_u64 ops (cache_misses s)) (d_of_u64 ops (cache_references s)))
                           (d_100 ops)
            else d_zero ops)
   \<and> ((\<forall>a b c. d_mul ops (d_div ops a b) c = d_div ops (d_mul ops c a) b) \<longrightarrow>
        branch_miss_rate s =
           (if 0 < branches s
            then d_div ops (d_mul ops (d_100 ops) (d_of_u64 ops (branch_misses s)))
                           (d_of_u64 ops (branches s))
            else d_zero ops)
        \<and> cache_miss_rate s =
           (if 0 < cache_references s
            then d_div ops (d_mul ops (d_100 ops) (d_of_u64 ops (cache_misses s)))
                           (d_of_u64 ops (cache_references s))
            else d_zero ops))"
proof -
  from perfmon_stop_stats [OF assms] obtain t where s: "s = derived_metrics ops t"
    by blast
  have ipc: "insn_per_cycle s =
           (if 0 < cycles s
            then d_div ops (d_of_u64 ops (instructions s)) (d_of_u64 ops (cycles s))
            else d_zero ops)"
    unfolding s by (rule derived_metrics_fields(1))
  have bmr: "branch_miss_rate s =
           (if 0 < branches s
            then d_mul ops (d_div ops (d_of_u64 ops (branch_misses s)) (d_of_u64 ops (branches s)))
                           (d_100 ops)
            else d_zero ops)"
    unfolding s by (rule derived_metrics_fields(2))
  have cmr: "cache_miss_rate s =
           (if 0 < cache_references s
            then d_mul ops (d_div ops (d_of_u64 ops (cache_misses s)) (d_of_u64 ops (cache_references s)))
                           (d_100 ops)
            else d_zero ops)"
    unfolding s by (rule derived_metrics_fields(3))
  have exact: "(\<forall>a b c. d_mul ops (d_div ops a b) c = d_div ops (d_mul ops c a) b) \<longrightarrow>
        branch_miss_rate s =
           (if 0 < branches s
            then d_div ops (d_mul ops (d_100 ops) (d_of_u64 ops (branch_misses s)))
                           (d_of_u64 ops (branches s))
            else d_zero ops)
        \<and> cache_miss_rate s =
           (if 0 < cache_references s
            then d_div ops (d_mul ops (d_100 ops) (d_of_u64 ops (cache_misses s)))
                           (d_of_u64 ops (cache_references s))
            else d_zero ops)"
    using bmr cmr by simp
  from ipc bmr cmr exact show ?thesis
    by blast
qed

theorem snapshot_derived_metrics_witness:
  "fst demo_ratios
   \<and> (\<forall>a b c. d_mul exact_ops (d_div exact_ops a b) c = d_div exact_ops (d_mul exact_ops c a) b)
   \<and> insn_per_cycle (the (snd (snd (snd demo_ratios)))) = 3 / 2
   \<and> branch_miss_rate (the (snd (snd (snd demo_ratios)))) = 25
   \<and> cache_miss_rate (the (snd (snd (snd demo_ratios)))) = 0"
proof -
  define W where "W = workload (\<lambda>f. if f = 3 then 4 else if f = 4 then 6 else if f = 5 then 8
                                  else if f = 6 then (2::u64) else 0)
                 \<lparr>tv_sec = 101, tv_nsec = 0\<rparr> (fst (snd demo_running))"
  define C where "C = the (snd (snd demo_running))"
  note cnt = demo_ratios_counts [folded W_def C_def]
  have c: "snd (snd demo_running) = Some C" and run: "is_running C"
    using demo_running_ctx by (simp_all add: C_def)
  have R: "demo_ratios = perfmon_stop exact_ops W (Some C) (Some (zero_stats exact_ops))"
    by (simp add: demo_ratios_def W_def c)
  from perfmon_stop_running [OF run, of exact_ops W "zero_stats exact_ops"]
  obtain s w' where stop: "perfmon_stop exact_ops W (Some C) (Some (zero_stats exact_ops)) =
        (True, w', Some (C\<lparr>end_time := k_clock W, is_running := False\<rparr>), Some s)"
    and raw: "\<forall>k<PERFMON_MAX_COUNTERS. raw_count k s = counter_value W (fd (counters C ! k))"
    by blast
  have k: "PERFMON_CYCLES < PERFMON_MAX_COUNTERS" "PERFMON_INSTRUCTIONS < PERFMON_MAX_COUNTERS"
    "PERFMON_BRANCHES < PERFMON_MAX_COUNTERS" "PERFMON_BRANCH_MISSES < PERFMON_MAX_COUNTERS"
    "PERFMON_CACHE_REFERENCES < PERFMON_MAX_COUNTERS"
    by (simp_all add: perfmon_counter_type_defs PERFMON_MAX_COUNTERS_def)
  have v: "cycles s = 4" "instructions s = 6" "branches s = 8" "branch_misses s = 2"
    "cache_references s = 0"
    using raw [rule_format, OF k(1)] raw [rule_format, OF k(2)] raw [rule_format, OF k(3)]
      raw [rule_format, OF k(4)] raw [rule_format, OF k(5)] cnt
    by (simp_all add: raw_count_def perfmon_counter_type_defs)
  note T = snapshot_derived_metrics [OF stop]
  have ipc: "insn_per_cycle s = 3 / 2"
    using T by (simp add: v exact_ops_def)
  have bmr: "branch_miss_rate s = 25"
    using T exact_ops_exchange by (simp add: v exact_ops_def)
  have cmr: "cache_miss_rate s = 0"
    using T by (simp add: v exact_ops_def)
  show ?thesis
    using ipc bmr cmr exact_ops_exchange by (simp add: R stop)
qed

subsection \<open>Opening a session\<close>

lemma init_all_foldl: "init_all s = foldl acquire s acquisitions"
  by (simp add: init_all_def acquisitions_def acquire_def Let_def)

lemma setup_counter_eq:
  "setup_counter w ty config =
     (case k_perf_policy w (k_trace w) (counter_attr ty config) of
        Some e \<Rightarrow>
          (- 1, w\<lparr>k_trace := k_trace w @ [Sys_perf_event_open (counter_attr ty config) (- 1)],
                 errno := e,
                 error_msg := take 255 (''Failed to open perf event (type='' @ dec (uint ty)
                     @ '', config='' @ dec (uint config) @ ''): '' @ k_strerror w e)\<rparr>)
      | None \<Rightarrow>
          (int (k_next_fd w),
           w\<lparr>k_trace := k_trace w @ [Sys_perf_event_open (counter_attr ty config) (int (k_next_fd w))],
             k_events := (k_events w)(int (k_next_fd w) \<mapsto> \<lparr>ev_count = 0, ev_active = False\<rparr>),
             k_inherited := (k_inherited w)(int (k_next_fd w) \<mapsto> 0),
             k_next_fd := Suc (k_next_fd w)\<rparr>))"
  by (simp add: setup_counter_def perf_event_open_def counter_attr_def log_call_def set_error_def
        Let_def split: option.split)

lemma perf_counter_upd:
  "(c::perf_counter_t)\<lparr>fd := a, enabled := b\<rparr> = \<lparr>fd = a, enabled = b\<rparr>"
  by (cases c) simp

lemma init_counter_eq:
  assumes "k < length cs"
  shows "init_counter k ty config (cs, w) =
     (cs[k := \<lparr>fd = fst (setup_counter w ty config),
               enabled = (fst (setup_counter w ty config) \<noteq> - 1)\<rparr>],
      snd (setup_counter w ty config))"
  using assms by (simp add: init_counter_def Let_def split_def perf_counter_upd)

lemma setup_counter_trace:
  "k_trace (snd (setup_counter w ty config)) =
     k_trace w @ [Sys_perf_event_open (counter_attr ty config) (fst (setup_counter w ty config))]"
  by (simp add: setup_counter_eq split: option.split)

lemma acquire_eq:
  assumes "k < length cs"
  shows "acquire (cs, w) (k, ty, config) =
     (cs[k := \<lparr>fd = fst (setup_counter w ty config),
               enabled = (fst (setup_counter w ty config) \<noteq> - 1)\<rparr>],
      snd (setup_counter w ty config))"
  using assms by (simp add: acquire_def init_counter_eq)

lemma foldl_acquire:
  assumes "\<forall>a\<in>set tbl. fst a < length cs" and "distinct (map fst tbl)"
  shows "length (fst (foldl acquire (cs, w) tbl)) = length cs
    \<and> (\<forall>i. i \<notin> fst ` set tbl \<longrightarrow> fst (foldl acquire (cs, w) tbl) ! i = cs ! i)
    \<and> (\<forall>a\<in>set tbl. enabled (fst (foldl acquire (cs, w) tbl) ! fst a)
                        = (fd (fst (foldl acquire (cs, w) tbl) ! fst a) \<noteq> - 1))
    \<and> k_trace (snd (foldl acquire (cs, w) tbl)) =
        k_trace w @ map (\<lambda>a. Sys_perf_event_open (counter_attr (fst (snd a)) (snd (snd a)))
                                  (fd (fst (foldl acquire (cs, w) tbl) ! fst a))) tbl"
  using assms
proof (induction tbl arbitrary: cs w)
  case Nil
  show ?case by simp
next
  case (Cons a tbl)
  obtain k ty config where a: "a = (k, ty, config)"
    by (cases a) auto
  define f where "f = fst (setup_counter w ty config)"
  define cs1 where "cs1 = cs[k := \<lparr>fd = f, enabled = (f \<noteq> - 1)\<rparr>]"
  define w1 where "w1 = snd (setup_counter w ty config)"
  have k: "k < length cs"
    using Cons.prems(1) a by simp
  have step: "acquire (cs, w) a = (cs1, w1)"
    using k by (simp add: a acquire_eq cs1_def w1_def f_def)
  have len1: "length cs1 = length cs"
    by (simp add: cs1_def)
  have p1: "\<forall>a\<in>set tbl. fst a < length cs1"
    using Cons.prems(1) len1 by simp
  have p2: "distinct (map fst tbl)"
    using Cons.prems(2) by simp
  have notin: "k \<notin> fst ` set tbl"
    using Cons.prems(2) a by simp
  note ih = Cons.IH [OF p1 p2, of w1]
  define R where "R = foldl acquire (cs1, w1) tbl"
  have fold: "foldl acquire (cs, w) (a # tbl) = R"
    by (simp add: step R_def)
  from ih have len: "length (fst R) = length cs1"
    and keep: "\<forall>i. i \<notin> fst ` set tbl \<longrightarrow> fst R ! i = cs1 ! i"
    and en: "\<forall>a\<in>set tbl. enabled (fst R ! fst a) = (fd (fst R ! fst a) \<noteq> - 1)"
    and tr: "k_trace (snd R) =
        k_trace w1 @ map (\<lambda>a. Sys_perf_event_open (counter_attr (fst (snd a)) (snd (snd a)))
                                  (fd (fst R ! fst a))) tbl"
    unfolding R_def by blast+
  have slot: "fst R ! k = \<lparr>fd = f, enabled = (f \<noteq> - 1)\<rparr>"
    using keep notin k by (simp add: cs1_def)
  have c1: "length (fst R) = length cs"
    using len len1 by simp
  have c2: "\<forall>i. i \<notin> fst ` set (a # tbl) \<longrightarrow> fst R ! i = cs ! i"
    using keep by (auto simp: a cs1_def)
  have c3: "\<forall>b\<in>set (a # tbl). enabled (fst R ! fst b) = (fd (fst R ! fst b) \<noteq> - 1)"
    using en slot by (auto simp: a)
  have c4: "k_trace (snd R) =
        k_trace w @ map (\<lambda>a. Sys_perf_event_open (counter_attr (fst (snd a)) (snd (snd a)))
                                  (fd (fst R ! fst a))) (a # tbl)"
    using tr slot by (simp add: a w1_def setup_counter_trace f_def)
  show ?case
    unfolding fold using c1 c2 c3 c4 by blast
qed

lemma setup_counter_frame:
  "k_perf_policy (snd (setup_counter w ty config)) = k_perf_policy w"
  "k_read_short (snd (setup_counter w ty config)) = k_read_short w"
  "k_clock (snd (setup_counter w ty config)) = k_clock w"
  by (simp_all add: setup_counter_eq split: option.split)

lemma setup_counter_refused:
  assumes "k_perf_policy w (k_trace w) (counter_attr ty config) \<noteq> None"
  shows "fst (setup_counter w ty config) = - 1"
  using assms by (auto simp: setup_counter_eq split: option.split)

lemma foldl_acquire_refused:
  assumes "\<forall>a\<in>set tbl. fst a < length cs" and "distinct (map fst tbl)"
    and "\<forall>tr pe. k_perf_policy w tr pe \<noteq> None"
  shows "\<forall>a\<in>set tbl. fd (fst (foldl acquire (cs, w) tbl) ! fst a) = - 1"
  using assms
proof (induction tbl arbitrary: cs w)
  case Nil
  show ?case by simp
next
  case (Cons a tbl)
  obtain k ty config where a: "a = (k, ty, config)"
    by (cases a) auto
  define f where "f = fst (setup_counter w ty config)"
  define cs1 where "cs1 = cs[k := \<lparr>fd = f, enabled = (f \<noteq> - 1)\<rparr>]"
  define w1 where "w1 = snd (setup_counter w ty config)"
  have k: "k < length cs"
    using Cons.prems(1) a by simp
  have f: "f = - 1"
    unfolding f_def using Cons.prems(3) by (simp add: setup_counter_refused)
  have step: "acquire (cs, w) a = (cs1, w1)"
    using k by (simp add: a acquire_eq cs1_def w1_def f_def)
  have p1: "\<forall>a\<in>set tbl. fst a < length cs1"
    using Cons.prems(1) by (simp add: cs1_def)
  have p2: "distinct (map fst tbl)"
    using Cons.prems(2) by simp
  have p3: "\<forall>tr pe. k_perf_policy w1 tr pe \<noteq> None"
    using Cons.prems(3) by (simp add: w1_def setup_counter_frame)
  have notin: "k \<notin> fst ` set tbl"
    using Cons.prems(2) a by simp
  note ih = Cons.IH [OF p1 p2 p3]
  have keep: "fst (foldl acquire (cs1, w1) tbl) ! k = cs1 ! k"
    using foldl_acquire [OF p1 p2, of w1] notin by blast
  have "fd (fst (foldl acquire (cs1, w1) tbl) ! k) = - 1"
    using keep k f by (simp add: cs1_def)
  with ih show ?case
    using step by (simp add: a)
qed


lemma fresh_slots_acquire:
  assumes "fresh_slots cs w" and "k < length cs"
  shows "fresh_slots (fst (acquire (cs, w) (k, ty, config))) (snd (acquire (cs, w) (k, ty, config)))"
proof (cases "k_perf_policy w (k_trace w) (counter_attr ty config)")
  case (Some e)
  then show ?thesis
    using assms
    by (auto simp: acquire_eq setup_counter_eq fresh_slots_def nth_list_update)
next
  case None
  then show ?thesis
    using assms
    by (auto simp: acquire_eq setup_counter_eq fresh_slots_def nth_list_update)
qed

lemma foldl_acquire_fresh:
  assumes "\<forall>a\<in>set tbl. fst a < length cs" and "fresh_slots cs w"
  shows "fresh_slots (fst (foldl acquire (cs, w) tbl)) (snd (foldl acquire (cs, w) tbl))"
  using assms
proof (induction tbl arbitrary: cs w)
  case Nil
  then show ?case by simp
next
  case (Cons a tbl)
  obtain k ty config where a: "a = (k, ty, config)"
    by (cases a) auto
  have k: "k < length cs"
    using Cons.prems(1) a by simp
  define s1 where "s1 = acquire (cs, w) a"
  have len: "length (fst s1) = length cs"
    using k by (simp add: s1_def a acquire_eq)
  have p1: "\<forall>a\<in>set tbl. fst a < length (fst s1)"
    using Cons.prems(1) len by simp
  have p2: "fresh_slots (fst s1) (snd s1)"
    unfolding s1_def a by (rule fresh_slots_acquire [OF Cons.prems(2) k])
  from Cons.IH [OF p1 p2] show ?case
    by (simp add: s1_def)
qed

lemma clear_counters_nth:
  assumes "i < length cs"
  shows "clear_counters is cs ! i = (if i \<in> set is then \<lparr>fd = - 1, enabled = False\<rparr> else cs ! i)"
  using assms
  by (induction "is" arbitrary: cs) (auto simp: perf_counter_upd nth_list_update)

lemma clear_counters_length [simp]: "length (clear_counters is cs) = length cs"
  by (induction "is" arbitrary: cs) simp_all

lemma acquisitions_kinds:
  "\<forall>a\<in>set acquisitions. fst a < PERFMON_MAX_COUNTERS"
  "distinct (map fst acquisitions)"
  "\<forall>k<PERFMON_MAX_COUNTERS. \<exists>a\<in>set acquisitions. fst a = k"
proof -
  show "\<forall>a\<in>set acquisitions. fst a < PERFMON_MAX_COUNTERS"
    by (simp add: acquisitions_def perfmon_counter_type_defs PERFMON_MAX_COUNTERS_def)
  show "distinct (map fst acquisitions)"
    by (simp add: acquisitions_def perfmon_counter_type_defs)
  show "\<forall>k<PERFMON_MAX_COUNTERS. \<exists>a\<in>set acquisitions. fst a = k"
  proof (intro allI impI)
    fix k assume "k < PERFMON_MAX_COUNTERS"
    then have "k = 0 \<or> k = 1 \<or> k = 2 \<or> k = 3 \<or> k = 4 \<or> k = 5 \<or> k = 6 \<or> k = 7 \<or> k = 8
      \<or> k = 9 \<or> k = 10 \<or> k = 11 \<or> k = 12"
      unfolding PERFMON_MAX_COUNTERS_def by arith
    then show "\<exists>a\<in>set acquisitions. fst a = k"
      by (elim disjE) (simp_all add: acquisitions_def perfmon_counter_type_defs)
  qed
qed

lemma perfmon_init_no_memory:
  assumes "\<not> k_calloc_ok w"
  shows "perfmon_init w =
           (None, w\<lparr>errno := 12,
                    error_msg := take 255 (''Failed to allocate context: '' @ k_strerror w 12)\<rparr>)"
  using assms by (simp add: perfmon_init_def calloc_context_def set_error_def)

lemma perfmon_init_ok:
  assumes "k_calloc_ok w"
  shows "\<exists>ctx w'. perfmon_init w = (Some ctx, w')
     \<and> length (counters ctx) = PERFMON_MAX_COUNTERS
     \<and> \<not> is_running ctx
     \<and> (\<forall>k<PERFMON_MAX_COUNTERS. enabled (counters ctx ! k) = (fd (counters ctx ! k) \<noteq> - 1))
     \<and> k_trace w' = k_trace w @
           map (\<lambda>a. Sys_perf_event_open (counter_attr (fst (snd a)) (snd (snd a)))
                                       (fd (counters ctx ! fst a))) acquisitions
     \<and> fresh_slots (counters ctx) w'
     \<and> ((\<forall>tr pe. k_perf_policy w tr pe \<noteq> None) \<longrightarrow>
          (\<forall>k<PERFMON_MAX_COUNTERS. fd (counters ctx ! k) = - 1))"
proof -
  define cs0 where "cs0 = clear_counters [0..<PERFMON_MAX_COUNTERS]
                            (replicate PERFMON_MAX_COUNTERS \<lparr>fd = 0, enabled = False\<rparr>)"
  define R where "R = foldl acquire (cs0, w) acquisitions"
  define ctx where "ctx = \<lparr>counters = fst R, start_time = \<lparr>tv_sec = 0, tv_nsec = 0\<rparr>,
                            end_time = \<lparr>tv_sec = 0, tv_nsec = 0\<rparr>, is_running = False\<rparr>"
  have init: "perfmon_init w = (Some ctx, snd R)"
    using assms
    by (simp add: perfmon_init_def calloc_context_def Let_def split_def init_all_foldl
          cs0_def R_def ctx_def)
  have len0: "length cs0 = PERFMON_MAX_COUNTERS"
    by (simp add: cs0_def)
  have cs0: "\<forall>i<PERFMON_MAX_COUNTERS. cs0 ! i = \<lparr>fd = - 1, enabled = False\<rparr>"
    by (simp add: cs0_def clear_counters_nth)
  have fresh0: "fresh_slots cs0 w"
    using cs0 len0 by (simp add: fresh_slots_def)
  have p1: "\<forall>a\<in>set acquisitions. fst a < length cs0"
    using acquisitions_kinds(1) len0 by simp
  note fa = foldl_acquire [OF p1 acquisitions_kinds(2), of w, folded R_def]
  have len: "length (counters ctx) = PERFMON_MAX_COUNTERS"
    using fa len0 by (simp add: ctx_def)
  have en: "\<forall>k<PERFMON_MAX_COUNTERS. enabled (counters ctx ! k) = (fd (counters ctx ! k) \<noteq> - 1)"
    using fa acquisitions_kinds(3) by (fastforce simp: ctx_def)
  have tr: "k_trace (snd R) = k_trace w @
           map (\<lambda>a. Sys_perf_event_open (counter_attr (fst (snd a)) (snd (snd a)))
                                       (fd (counters ctx ! fst a))) acquisitions"
    using fa by (simp add: ctx_def)
  have fresh: "fresh_slots (counters ctx) (snd R)"
    using foldl_acquire_fresh [OF p1 fresh0] by (simp add: ctx_def R_def)
  have refused: "(\<forall>tr pe. k_perf_policy w tr pe \<noteq> None) \<longrightarrow>
          (\<forall>k<PERFMON_MAX_COUNTERS. fd (counters ctx ! k) = - 1)"
  proof (intro impI allI)
    fix k assume pol: "\<forall>tr pe. k_perf_policy w tr pe \<noteq> None" and k: "k < PERFMON_MAX_COUNTERS"
    from acquisitions_kinds(3) k obtain a where a: "a \<in> set acquisitions" "fst a = k"
      by blast
    from foldl_acquire_refused [OF p1 acquisitions_kinds(2) pol] a
    show "fd (counters ctx ! k) = - 1"
      by (auto simp: ctx_def R_def)
  qed
  have run: "\<not> is_running ctx"
    by (simp add: ctx_def)
  from init len run en tr fresh refused show ?thesis
    by blast
qed

lemma perfmon_is_supported_policy:
  "k_perf_policy (snd (perfmon_is_supported w)) = k_perf_policy w"
  by (simp add: perfmon_is_supported_def perf_event_open_def sys_close_def log_call_def Let_def
        split: option.split)

lemma perfmon_init_Some_calloc:
  assumes "perfmon_init w = (Some ctx, w')"
  shows "k_calloc_ok w"
  using assms perfmon_init_no_memory [of w] by (cases "k_calloc_ok w") simp_all

lemma enable_already_enabled:
  assumes "enabled (cs ! k)"
  shows "cs[k := (cs ! k)\<lparr>enabled := True\<rparr>] = cs"
proof -
  have "(cs ! k)\<lparr>enabled := True\<rparr> = cs ! k"
    using assms by (cases "cs ! k") simp
  then show ?thesis by simp
qed

lemma slot_inv_update:
  assumes "\<forall>i<length cs. enabled (cs ! i) \<longrightarrow> fd (cs ! i) \<noteq> - 1"
    and "enabled x \<longrightarrow> fd x \<noteq> - 1"
  shows "\<forall>i<length (cs[k := x]). enabled (cs[k := x] ! i) \<longrightarrow> fd (cs[k := x] ! i) \<noteq> - 1"
proof (intro allI impI)
  fix i assume i: "i < length (cs[k := x])" and en: "enabled (cs[k := x] ! i)"
  show "fd (cs[k := x] ! i) \<noteq> - 1"
  proof (cases "i = k")
    case True
    with i en assms(2) show ?thesis by simp
  next
    case False
    with i en assms(1) show ?thesis by simp
  qed
qed

lemma slot_inv_enable:
  assumes "slot_inv c" and "perfmon_enable_counter w (Some c) kind = (r, w', Some c')"
  shows "slot_inv c'"
proof (cases "PERFMON_MAX_COUNTERS \<le> kind \<or> fd (counters c ! kind) = - 1")
  case True
  with assms(2) have "c' = c"
    by (auto simp: perfmon_enable_counter_def split: if_splits)
  with assms(1) show ?thesis by simp
next
  case False
  with assms(2) have c': "counters c' = (counters c)[kind := (counters c ! kind)\<lparr>enabled := True\<rparr>]"
    by (auto simp: perfmon_enable_counter_def split: if_splits)
  show ?thesis
    unfolding slot_inv_def c'
    using assms(1) False by (intro slot_inv_update) (simp_all add: slot_inv_def)
qed

lemma slot_inv_disable:
  assumes "slot_inv c" and "perfmon_disable_counter w (Some c) kind = (r, w', Some c')"
  shows "slot_inv c'"
proof (cases "PERFMON_MAX_COUNTERS \<le> kind")
  case True
  with assms(2) have "c' = c"
    by (auto simp: perfmon_disable_counter_def split: if_splits)
  with assms(1) show ?thesis by simp
next
  case False
  with assms(2) have c': "counters c' = (counters c)[kind := (counters c ! kind)\<lparr>enabled := False\<rparr>]"
    by (auto simp: perfmon_disable_counter_def split: if_splits)
  show ?thesis
    unfolding slot_inv_def c'
    using assms(1) by (intro slot_inv_update) (simp_all add: slot_inv_def)
qed

lemma disable_enables_nothing:
  assumes "perfmon_disable_counter w (Some c) kind = (r, w', Some c')"
    and "i < length (counters c)" and "enabled (counters c' ! i)"
  shows "enabled (counters c ! i)"
proof (cases "PERFMON_MAX_COUNTERS \<le> kind")
  case True
  with assms(1) have "c' = c"
    by (auto simp: perfmon_disable_counter_def split: if_splits)
  with assms(3) show ?thesis by simp
next
  case False
  with assms(1) have c': "counters c' = (counters c)[kind := (counters c ! kind)\<lparr>enabled := False\<rparr>]"
    by (auto simp: perfmon_disable_counter_def split: if_splits)
  show ?thesis
  proof (cases "i = kind")
    case True
    with assms(2,3) show ?thesis by (simp add: c')
  next
    case False
    with assms(3) show ?thesis by (simp add: c')
  qed
qed

lemma perfmon_start_counters:
  assumes "perfmon_start w (Some c) = (r, w', Some c')"
  shows "counters c' = counters c"
proof (cases "is_running c")
  case True
  with assms show ?thesis by (simp add: perfmon_start_def)
next
  case False
  with assms show ?thesis
    by (auto simp: perfmon_start_def clock_gettime_def Let_def)
qed

lemma perfmon_stop_counters:
  assumes "perfmon_stop ops w (Some c) st = (r, w', Some c', s')"
  shows "counters c' = counters c"
proof (cases "is_running c")
  case False
  with assms show ?thesis by (simp add: perfmon_stop_def)
next
  case True
  have "fst (snd (snd (perfmon_stop ops w (Some c) st))) =
          Some (c\<lparr>end_time := k_clock w, is_running := False\<rparr>)"
    using True by (simp add: perfmon_stop_def clock_gettime_def Let_def split_def)
  with assms show ?thesis by auto
qed

lemma perfmon_reset_counters:
  assumes "perfmon_reset w (Some c) = (r, w', Some c')"
  shows "counters c' = counters c"
  using assms by (simp add: perfmon_reset_def)

lemma perfmon_init_slot_inv:
  assumes "perfmon_init w = (Some ctx, w')"
  shows "slot_inv ctx"
proof -
  from perfmon_init_ok [OF perfmon_init_Some_calloc [OF assms]] assms
  have "length (counters ctx) = PERFMON_MAX_COUNTERS"
    and "\<forall>k<PERFMON_MAX_COUNTERS. enabled (counters ctx ! k) = (fd (counters ctx ! k) \<noteq> - 1)"
    by auto
  then show ?thesis
    by (simp add: slot_inv_def)
qed

lemma soft_idle_facts:
  "fst soft_idle \<noteq> None"
  "fd (counters (the (fst soft_idle)) ! PERFMON_CYCLES) = - 1"
  "fd (counters (the (fst soft_idle)) ! PERFMON_PAGE_FAULTS) = 3"
  "fst (perfmon_is_supported (boot software_only True)) = False"
  by code_simp+

lemma refused_idle_facts:
  "fst refused_idle \<noteq> None"
  "fst (perfmon_is_supported (boot refuse_all True)) = False"
  by code_simp+

text \<open>
  C4, as amended. Whenever \<open>calloc\<close> serves the context, \<open>perfmon_init\<close> returns a
  session, whatever the kernel answers to the acquisitions: an idle context of
  \<open>PERFMON_MAX_COUNTERS\<close> slots, each enabled exactly when it holds a descriptor. The
  log gains the thirteen calls of \<open>perf_event_open\<close>, in the order of the source and
  each with the descriptor that ends in its own slot, so a refused acquisition (logged
  with \<open>-1\<close>) neither stops the later ones nor touches another slot. When the kernel
  refuses every event the session still comes back, with no descriptor and no enabled
  slot.
\<close>

theorem init_best_effort:
  assumes "k_calloc_ok w"
  shows "\<exists>ctx w'. perfmon_init w = (Some ctx, w')
     \<and> length (counters ctx) = PERFMON_MAX_COUNTERS
     \<and> \<not> is_running ctx
     \<and> (\<forall>k<PERFMON_MAX_COUNTERS. enabled (counters ctx ! k) = (fd (counters ctx ! k) \<noteq> - 1))
     \<and> k_trace w' = k_trace w @
           map (\<lambda>a. Sys_perf_event_open (counter_attr (fst (snd a)) (snd (snd a)))
                                       (fd (counters ctx ! fst a))) acquisitions
     \<and> ((\<forall>tr pe. k_perf_policy w tr pe \<noteq> None) \<longrightarrow>
          (\<forall>k<PERFMON_MAX_COUNTERS. fd (counters ctx ! k) = - 1 \<and> \<not> enabled (counters ctx ! k)))"
proof -
  from perfmon_init_ok [OF assms]
  obtain ctx w' where init: "perfmon_init w = (Some ctx, w')"
    and len: "length (counters ctx) = PERFMON_MAX_COUNTERS"
    and run: "\<not> is_running ctx"
    and en: "\<forall>k<PERFMON_MAX_COUNTERS. enabled (counters ctx ! k) = (fd (counters ctx ! k) \<noteq> - 1)"
    and tr: "k_trace w' = k_trace w @
           map (\<lambda>a. Sys_perf_event_open (counter_attr (fst (snd a)) (snd (snd a)))
                                       (fd (counters ctx ! fst a))) acquisitions"
    and refused: "(\<forall>tr pe. k_perf_policy w tr pe \<noteq> None) \<longrightarrow>
          (\<forall>k<PERFMON_MAX_COUNTERS. fd (counters ctx ! k) = - 1)"
    by blast
  from en refused have "(\<forall>tr pe. k_perf_policy w tr pe \<noteq> None) \<longrightarrow>
          (\<forall>k<PERFMON_MAX_COUNTERS. fd (counters ctx ! k) = - 1 \<and> \<not> enabled (counters ctx ! k))"
    by simp
  with init len run en tr show ?thesis
    by blast
qed

theorem init_best_effort_witness:
  "k_calloc_ok (boot refuse_all True) \<and> (\<forall>tr pe. k_perf_policy (boot refuse_all True) tr pe \<noteq> None) \<and>
   (\<exists>ctx w'. perfmon_init (boot refuse_all True) = (Some ctx, w')
      \<and> length (counters ctx) = PERFMON_MAX_COUNTERS
      \<and> (\<forall>k<PERFMON_MAX_COUNTERS. fd (counters ctx ! k) = - 1 \<and> \<not> enabled (counters ctx ! k)))"
proof -
  have h: "k_calloc_ok (boot refuse_all True)"
    by (simp add: boot_def)
  have p: "\<forall>tr pe. k_perf_policy (boot refuse_all True) tr pe \<noteq> None"
    by (simp add: boot_def refuse_all_def)
  from init_best_effort [OF h] p h show ?thesis
    by blast
qed

text \<open>
  C4 as stated, "for every environment it returns a session object", fails where
  the context cannot be allocated: \<open>perfmon_init\<close> returns \<open>NULL\<close>, even on a
  kernel that would grant every event.
\<close>

theorem init_without_memory:
  "fst (perfmon_init (boot grant_all False)) = None"
  by (simp add: perfmon_init_no_memory boot_def)

subsection \<open>The invariant of the slots\<close>

text \<open>
  C9. A session returned by \<open>perfmon_init\<close> satisfies the invariant. For a valid kind,
  \<open>perfmon_enable_counter\<close> sets the enabled flag of the slot and returns \<open>true\<close> when
  the slot holds a descriptor, and returns \<open>false\<close> with the context and the world
  untouched when it holds none; for an invalid kind it returns \<open>false\<close> and only leaves
  a message. Enabling and disabling preserve the invariant, disabling sets no flag,
  and start, stop and reset return the slots as they were.
\<close>

theorem slot_invariant_preserved:
  "(\<forall>ctx w'. perfmon_init w = (Some ctx, w') \<longrightarrow> slot_inv ctx)
   \<and> (kind < PERFMON_MAX_COUNTERS \<and> fd (counters c ! kind) \<noteq> - 1 \<longrightarrow>
        perfmon_enable_counter w (Some c) kind =
          (True, w, Some (c\<lparr>counters := (counters c)[kind := (counters c ! kind)\<lparr>enabled := True\<rparr>]\<rparr>)))
   \<and> (kind < PERFMON_MAX_COUNTERS \<and> fd (counters c ! kind) = - 1 \<longrightarrow>
        perfmon_enable_counter w (Some c) kind = (False, w, Some c))
   \<and> (PERFMON_MAX_COUNTERS \<le> kind \<longrightarrow>
        perfmon_enable_counter w (Some c) kind =
          (False, w\<lparr>error_msg := ''Invalid context or counter type''\<rparr>, Some c))
   \<and> (slot_inv c \<longrightarrow>
        (\<forall>r w' c'. perfmon_enable_counter w (Some c) kind = (r, w', Some c') \<longrightarrow> slot_inv c'))
   \<and> (slot_inv c \<longrightarrow>
        (\<forall>r w' c'. perfmon_disable_counter w (Some c) kind = (r, w', Some c') \<longrightarrow> slot_inv c'))
   \<and> (\<forall>r w' c'. perfmon_disable_counter w (Some c) kind = (r, w', Some c') \<longrightarrow>
        (\<forall>i<length (counters c). enabled (counters c' ! i) \<longrightarrow> enabled (counters c ! i)))
   \<and> (\<forall>r w' c'. perfmon_start w (Some c) = (r, w', Some c') \<longrightarrow> counters c' = counters c)
   \<and> (\<forall>r w' c' s'. perfmon_stop ops w (Some c) st = (r, w', Some c', s') \<longrightarrow>
        counters c' = counters c)
   \<and> (\<forall>r w' c'. perfmon_reset w (Some c) = (r, w', Some c') \<longrightarrow> counters c' = counters c)"
proof (intro conjI)
  show "\<forall>ctx w'. perfmon_init w = (Some ctx, w') \<longrightarrow> slot_inv ctx"
    using perfmon_init_slot_inv by blast
  show "kind < PERFMON_MAX_COUNTERS \<and> fd (counters c ! kind) \<noteq> - 1 \<longrightarrow>
        perfmon_enable_counter w (Some c) kind =
          (True, w, Some (c\<lparr>counters := (counters c)[kind := (counters c ! kind)\<lparr>enabled := True\<rparr>]\<rparr>))"
    by (simp add: perfmon_enable_counter_def)
  show "kind < PERFMON_MAX_COUNTERS \<and> fd (counters c ! kind) = - 1 \<longrightarrow>
        perfmon_enable_counter w (Some c) kind = (False, w, Some c)"
    by (simp add: perfmon_enable_counter_def)
  show "PERFMON_MAX_COUNTERS \<le> kind \<longrightarrow>
        perfmon_enable_counter w (Some c) kind =
          (False, w\<lparr>error_msg := ''Invalid context or counter type''\<rparr>, Some c)"
    by (simp add: perfmon_enable_counter_def set_error_def)
  show "slot_inv c \<longrightarrow>
        (\<forall>r w' c'. perfmon_enable_counter w (Some c) kind = (r, w', Some c') \<longrightarrow> slot_inv c')"
    using slot_inv_enable by blast
  show "slot_inv c \<longrightarrow>
        (\<forall>r w' c'. perfmon_disable_counter w (Some c) kind = (r, w', Some c') \<longrightarrow> slot_inv c')"
    using slot_inv_disable by blast
  show "\<forall>r w' c'. perfmon_disable_counter w (Some c) kind = (r, w', Some c') \<longrightarrow>
        (\<forall>i<length (counters c). enabled (counters c' ! i) \<longrightarrow> enabled (counters c ! i))"
    using disable_enables_nothing by blast
  show "\<forall>r w' c'. perfmon_start w (Some c) = (r, w', Some c') \<longrightarrow> counters c' = counters c"
    using perfmon_start_counters by blast
  show "\<forall>r w' c' s'. perfmon_stop ops w (Some c) st = (r, w', Some c', s') \<longrightarrow>
        counters c' = counters c"
    using perfmon_stop_counters by blast
  show "\<forall>r w' c'. perfmon_reset w (Some c) = (r, w', Some c') \<longrightarrow> counters c' = counters c"
    using perfmon_reset_counters by blast
qed

theorem slot_invariant_preserved_witness:
  "perfmon_init (snd (perfmon_is_supported (boot software_only True))) =
     (Some (the (fst soft_idle)), snd soft_idle)
   \<and> slot_inv (the (fst soft_idle))
   \<and> fd (counters (the (fst soft_idle)) ! PERFMON_CYCLES) = - 1
   \<and> perfmon_enable_counter (snd soft_idle) (Some (the (fst soft_idle))) PERFMON_CYCLES =
       (False, snd soft_idle, Some (the (fst soft_idle)))
   \<and> fd (counters (the (fst soft_idle)) ! PERFMON_PAGE_FAULTS) \<noteq> - 1
   \<and> perfmon_enable_counter (snd soft_idle) (Some (the (fst soft_idle))) PERFMON_PAGE_FAULTS =
       (True, snd soft_idle,
        Some ((the (fst soft_idle))\<lparr>counters := (counters (the (fst soft_idle)))
           [PERFMON_PAGE_FAULTS := (counters (the (fst soft_idle)) ! PERFMON_PAGE_FAULTS)\<lparr>enabled := True\<rparr>]\<rparr>))
   \<and> slot_inv ((the (fst soft_idle))\<lparr>counters := (counters (the (fst soft_idle)))
           [PERFMON_PAGE_FAULTS := (counters (the (fst soft_idle)) ! PERFMON_PAGE_FAULTS)\<lparr>enabled := True\<rparr>]\<rparr>)"
proof -
  note f = soft_idle_facts
  have init: "perfmon_init (snd (perfmon_is_supported (boot software_only True))) =
     (Some (the (fst soft_idle)), snd soft_idle)"
    using f(1) by (simp add: soft_idle_def prod_eq_iff)
  have k1: "PERFMON_CYCLES < PERFMON_MAX_COUNTERS" "PERFMON_PAGE_FAULTS < PERFMON_MAX_COUNTERS"
    by (simp_all add: perfmon_counter_type_defs PERFMON_MAX_COUNTERS_def)
  have inv: "slot_inv (the (fst soft_idle))"
    by (rule slot_invariant_preserved
              [where w = "snd (perfmon_is_supported (boot software_only True))",
               THEN conjunct1, rule_format, OF init])
  have e1: "perfmon_enable_counter (snd soft_idle) (Some (the (fst soft_idle))) PERFMON_CYCLES =
       (False, snd soft_idle, Some (the (fst soft_idle)))"
    by (rule slot_invariant_preserved
              [THEN conjunct2, THEN conjunct2, THEN conjunct1, rule_format,
               OF conjI [OF k1(1) f(2)]])
  have p: "fd (counters (the (fst soft_idle)) ! PERFMON_PAGE_FAULTS) \<noteq> - 1"
    using f(3) by simp
  have e2: "perfmon_enable_counter (snd soft_idle) (Some (the (fst soft_idle))) PERFMON_PAGE_FAULTS =
       (True, snd soft_idle,
        Some ((the (fst soft_idle))\<lparr>counters := (counters (the (fst soft_idle)))
           [PERFMON_PAGE_FAULTS := (counters (the (fst soft_idle)) ! PERFMON_PAGE_FAULTS)\<lparr>enabled := True\<rparr>]\<rparr>))"
    by (rule slot_invariant_preserved
              [THEN conjunct2, THEN conjunct1, rule_format, OF conjI [OF k1(2) p]])
  have inv2: "slot_inv ((the (fst soft_idle))\<lparr>counters := (counters (the (fst soft_idle)))
           [PERFMON_PAGE_FAULTS := (counters (the (fst soft_idle)) ! PERFMON_PAGE_FAULTS)\<lparr>enabled := True\<rparr>]\<rparr>)"
    by (rule slot_invariant_preserved
              [THEN conjunct2, THEN conjunct2, THEN conjunct2, THEN conjunct2, THEN conjunct1,
               rule_format, OF inv e2])
  from init inv f(2) e1 p e2 inv2 show ?thesis
    by blast
qed

subsection \<open>Enabling after the support probe\<close>

text \<open>
  C7, as amended. When \<open>perfmon_is_supported\<close> has returned \<open>false\<close> and
  \<open>perfmon_init\<close> then returns a session, the session can be used: \<open>perfmon_start\<close>
  succeeds on it and the matching \<open>perfmon_stop\<close> succeeds and fills the statistics.
  For every valid kind \<open>perfmon_enable_counter\<close> returns \<open>false\<close> exactly when the
  slot of that kind holds no descriptor, that is when its acquisition was refused, and
  changes nothing. It returns \<open>false\<close> for every valid kind when the kernel refuses
  every event.
\<close>

theorem enable_after_unsupported:
  assumes "perfmon_is_supported w = (False, w0)"
    and "perfmon_init w0 = (Some ctx, w1)"
    and "kind < PERFMON_MAX_COUNTERS"
  shows "perfmon_enable_counter w1 (Some ctx) kind = (fd (counters ctx ! kind) \<noteq> - 1, w1, Some ctx)
     \<and> (\<exists>w2 c2. perfmon_start w1 (Some ctx) = (True, w2, Some c2)
            \<and> (\<forall>w3 s0. \<exists>w4 c4 s. perfmon_stop ops w3 (Some c2) (Some s0) = (True, w4, c4, Some s)))
     \<and> ((\<forall>tr pe. k_perf_policy w tr pe \<noteq> None) \<longrightarrow>
            perfmon_enable_counter w1 (Some ctx) kind = (False, w1, Some ctx))"
proof -
  from perfmon_init_ok [OF perfmon_init_Some_calloc [OF assms(2)]] assms(2)
  have idle: "\<not> is_running ctx"
    and en: "\<forall>k<PERFMON_MAX_COUNTERS. enabled (counters ctx ! k) = (fd (counters ctx ! k) \<noteq> - 1)"
    and refused: "(\<forall>tr pe. k_perf_policy w0 tr pe \<noteq> None) \<longrightarrow>
          (\<forall>k<PERFMON_MAX_COUNTERS. fd (counters ctx ! k) = - 1)"
    by auto
  have pol: "k_perf_policy w0 = k_perf_policy w"
    using perfmon_is_supported_policy [of w] assms(1) by simp
  have enable: "perfmon_enable_counter w1 (Some ctx) kind =
      (fd (counters ctx ! kind) \<noteq> - 1, w1, Some ctx)"
  proof (cases "fd (counters ctx ! kind) = - 1")
    case True
    with assms(3) show ?thesis
      by (simp add: perfmon_enable_counter_def)
  next
    case False
    with en assms(3) have "enabled (counters ctx ! kind)"
      by simp
    then have "(counters ctx)[kind := (counters ctx ! kind)\<lparr>enabled := True\<rparr>] = counters ctx"
      by (rule enable_already_enabled)
    with False assms(3) show ?thesis
      by (simp add: perfmon_enable_counter_def)
  qed
  have start: "perfmon_start w1 (Some ctx) =
      (True, fst (snd (perfmon_start w1 (Some ctx))), Some (ctx\<lparr>start_time := k_clock w1, is_running := True\<rparr>))"
    by (simp add: perfmon_start_idle [OF idle])
  have stop: "\<exists>w4 c4 s. perfmon_stop ops w3 (Some (ctx\<lparr>start_time := k_clock w1, is_running := True\<rparr>)) (Some s0)
                 = (True, w4, c4, Some s)" for w3 s0
    using perfmon_stop_running [of "ctx\<lparr>start_time := k_clock w1, is_running := True\<rparr>" ops w3 s0]
    by auto
  have usable: "\<exists>w2 c2. perfmon_start w1 (Some ctx) = (True, w2, Some c2)
            \<and> (\<forall>w3 s0. \<exists>w4 c4 s. perfmon_stop ops w3 (Some c2) (Some s0) = (True, w4, c4, Some s))"
    using start stop by blast
  have none: "(\<forall>tr pe. k_perf_policy w tr pe \<noteq> None) \<longrightarrow>
            perfmon_enable_counter w1 (Some ctx) kind = (False, w1, Some ctx)"
    using refused pol assms(3) enable by simp
  from enable usable none show ?thesis
    by blast
qed

theorem enable_after_unsupported_witness:
  "perfmon_is_supported (boot refuse_all True) =
     (False, snd (perfmon_is_supported (boot refuse_all True)))
   \<and> perfmon_init (snd (perfmon_is_supported (boot refuse_all True))) =
       (Some (the (fst refused_idle)), snd refused_idle)
   \<and> PERFMON_INSTRUCTIONS < PERFMON_MAX_COUNTERS
   \<and> perfmon_enable_counter (snd refused_idle) (Some (the (fst refused_idle))) PERFMON_INSTRUCTIONS =
       (False, snd refused_idle, Some (the (fst refused_idle)))"
proof -
  note f = refused_idle_facts
  have h1: "perfmon_is_supported (boot refuse_all True) =
     (False, snd (perfmon_is_supported (boot refuse_all True)))"
    using f(2) by (simp add: prod_eq_iff)
  have h2: "perfmon_init (snd (perfmon_is_supported (boot refuse_all True))) =
       (Some (the (fst refused_idle)), snd refused_idle)"
    using f(1) by (simp add: refused_idle_def prod_eq_iff)
  have h3: "PERFMON_INSTRUCTIONS < PERFMON_MAX_COUNTERS"
    by (simp add: perfmon_counter_type_defs PERFMON_MAX_COUNTERS_def)
  have p: "\<forall>tr pe. k_perf_policy (boot refuse_all True) tr pe \<noteq> None"
    by (simp add: boot_def refuse_all_def)
  from enable_after_unsupported [OF h1 h2 h3] p h1 h2 h3 show ?thesis
    by blast
qed

text \<open>
  C7 as stated fails on a kernel without a performance monitoring unit: the
  probe opens the cycles event and is refused, yet the software events are granted,
  the page-faults slot holds a descriptor and enabling it returns \<open>true\<close>.
\<close>

theorem enable_succeeds_when_unsupported:
  "fst (perfmon_is_supported (boot software_only True)) = False
   \<and> fst soft_idle \<noteq> None
   \<and> fst (perfmon_enable_counter (snd soft_idle) (fst soft_idle) PERFMON_PAGE_FAULTS) = True"
  by code_simp

subsection \<open>Measuring with a kind disabled\<close>

lemma fresh_slots_parked:
  assumes "fresh_slots cs w" and "k < length cs"
  shows "parked cs w k"
  using assms by (simp add: fresh_slots_def parked_def)

lemma fresh_slots_counter_value:
  assumes "fresh_slots cs w" and "k < length cs"
  shows "counter_value w (fd (cs ! k)) = 0"
  using assms by (simp add: fresh_slots_def counter_value_def)

lemma workload_counter_value:
  assumes "k_events w f = Some ev" and "\<not> ev_active ev"
  shows "counter_value (workload delta t w) f = counter_value w f"
  using assms by (simp add: counter_value_def workload_def)

lemma disabled_measurement_parked:
  assumes idle: "\<not> is_running ctx"
    and kind: "kind < PERFMON_MAX_COUNTERS"
    and len: "length (counters ctx) = PERFMON_MAX_COUNTERS"
    and rest: "parked (counters ctx) w kind"
  shows "\<exists>w' c' s. disabled_measurement ops kind delta t w (Some ctx) = (True, w', c', Some s)
           \<and> raw_count kind s = counter_value w (fd (counters ctx ! kind))"
proof -
  define cs where "cs = counters ctx"
  define cs1 where "cs1 = cs[kind := (cs ! kind)\<lparr>enabled := False\<rparr>]"
  define c1 where "c1 = ctx\<lparr>counters := cs1\<rparr>"
  define f where "f = fd (cs ! kind)"
  have dis: "perfmon_disable_counter w (Some ctx) kind = (True, w, Some c1)"
    using kind by (simp add: perfmon_disable_counter_def c1_def cs1_def cs_def)
  have idle1: "\<not> is_running c1"
    using idle by (simp add: c1_def)
  define c2 where "c2 = c1\<lparr>start_time := k_clock w, is_running := True\<rparr>"
  define w2 where "w2 = fst (snd (perfmon_start w (Some c1)))"
  have start: "perfmon_start w (Some c1) = (True, w2, Some c2)"
    by (simp add: perfmon_start_idle [OF idle1] w2_def c2_def)
  have ev2: "k_events w2 g = (if g \<in> set (armed_fds cs1 [0..<PERFMON_MAX_COUNTERS])
                          then map_option (\<lambda>ev. ev\<lparr>ev_count := reset_value w g, ev_active := True\<rparr>) (k_events w g)
                          else k_events w g)" for g
    unfolding w2_def perfmon_start_idle [OF idle1] by (simp add: c1_def)
  have rs2: "k_read_short w2 = k_read_short w"
    unfolding w2_def perfmon_start_idle [OF idle1] by simp
  have run2: "is_running c2"
    by (simp add: c2_def)
  have klen: "kind < length cs"
    using kind len by (simp add: cs_def)
  have fd1: "fd (cs1 ! j) = fd (cs ! j)" for j
    using klen by (cases "j = kind") (simp_all add: cs1_def)
  have off: "\<not> enabled (cs1 ! kind)"
    using klen by (simp add: cs1_def)
  from perfmon_stop_running [OF run2, of ops "workload delta t w2" "zero_stats ops"]
  obtain s w' where stop: "perfmon_stop ops (workload delta t w2) (Some c2) (Some (zero_stats ops)) =
            (True, w', Some (c2\<lparr>end_time := k_clock (workload delta t w2), is_running := False\<rparr>), Some s)"
    and raw: "\<forall>k<PERFMON_MAX_COUNTERS. raw_count k s = counter_value (workload delta t w2) (fd (counters c2 ! k))"
    by blast
  have cnt2: "counters c2 = cs1"
    by (simp add: c2_def c1_def)
  have val: "raw_count kind s = counter_value (workload delta t w2) f"
    using raw kind by (simp add: cnt2 fd1 f_def)
  have same: "counter_value (workload delta t w2) f = counter_value w f"
  proof (cases "f = - 1")
    case True
    then show ?thesis by (simp add: counter_value_def)
  next
    case False
    with rest obtain ev where ev: "k_events w f = Some ev" "\<not> ev_active ev"
      and own: "\<forall>j<length cs. j \<noteq> kind \<longrightarrow> fd (cs ! j) \<noteq> f"
      by (auto simp: parked_def cs_def f_def split: option.splits)
    have "f \<notin> set (armed_fds cs1 [0..<PERFMON_MAX_COUNTERS])"
    proof
      assume "f \<in> set (armed_fds cs1 [0..<PERFMON_MAX_COUNTERS])"
      then obtain j where j: "j < PERFMON_MAX_COUNTERS" "armed cs1 j" "fd (cs1 ! j) = f"
        by (auto simp: armed_fds_def)
      from j(2) off have "j \<noteq> kind"
        by (auto simp: armed_def)
      with own j(1) len have "fd (cs ! j) \<noteq> f"
        by (simp add: cs_def)
      with j(3) fd1 show False by simp
    qed
    then have ev2': "k_events w2 f = k_events w f"
      by (simp add: ev2)
    have "counter_value (workload delta t w2) f = counter_value w2 f"
      by (rule workload_counter_value [of w2 f ev]) (simp_all add: ev2' ev)
    also have "\<dots> = counter_value w f"
      by (rule counter_value_events) (simp_all add: rs2 ev2')
    finally show ?thesis .
  qed
  have "disabled_measurement ops kind delta t w (Some ctx) =
          (True, w', Some (c2\<lparr>end_time := k_clock (workload delta t w2), is_running := False\<rparr>), Some s)"
    by (simp add: disabled_measurement_def dis start stop)
  with val same show ?thesis by (simp add: f_def cs_def)
qed

lemma demo_idle_facts:
  "fst demo_idle \<noteq> None"
  "\<not> is_running (the (fst demo_idle))"
  "fd (counters (the (fst demo_idle)) ! PERFMON_CYCLES) = 3"
  by code_simp+

lemma demo_idle_init:
  "perfmon_init (boot grant_all True) = (Some (the (fst demo_idle)), snd demo_idle)"
  using demo_idle_facts(1) by (simp add: demo_idle_def prod_eq_iff)

lemma demo_idle_fresh:
  "length (counters (the (fst demo_idle))) = PERFMON_MAX_COUNTERS"
  "fresh_slots (counters (the (fst demo_idle))) (snd demo_idle)"
proof -
  have "k_calloc_ok (boot grant_all True)"
    by (simp add: boot_def)
  from perfmon_init_ok [OF this] demo_idle_init
  show "length (counters (the (fst demo_idle))) = PERFMON_MAX_COUNTERS"
    and "fresh_slots (counters (the (fst demo_idle))) (snd demo_idle)"
    by auto
qed

lemma demo_running_facts:
  "map fd (counters (the (snd (snd demo_running)))) = [3, 4, 5, 6, 7, 8, 14, 15, 9, 10, 11, 12, 13]"
  "armed_fds (counters (the (snd (snd demo_running)))) [0..<PERFMON_MAX_COUNTERS] =
     [3, 4, 5, 6, 7, 8, 14, 15, 9, 10, 11, 12, 13]"
  "k_events (workload (\<lambda>f. 5) \<lparr>tv_sec = 101, tv_nsec = 0\<rparr> (fst (snd demo_running))) 3 =
     Some \<lparr>ev_count = 5, ev_active = True\<rparr>"
  "\<not> k_read_short (workload (\<lambda>f. 5) \<lparr>tv_sec = 101, tv_nsec = 0\<rparr> (fst (snd demo_running))) 3"
  by code_simp+

lemma distinct_fds_own:
  assumes "distinct (map fd cs)" and "k < length cs"
  shows "\<forall>j<length cs. j \<noteq> k \<longrightarrow> fd (cs ! j) \<noteq> fd (cs ! k)"
proof (intro allI impI)
  fix j assume j: "j < length cs" "j \<noteq> k"
  from assms j have "map fd cs ! j \<noteq> map fd cs ! k"
    by (simp add: nth_eq_iff_index_eq del: nth_map)
  with j assms(2) show "fd (cs ! j) \<noteq> fd (cs ! k)"
    by simp
qed

text \<open>
  C6, as amended. On an idle session, take a kind whose slot is parked. When the kind
  is disabled, the session started, the measured program run and the session stopped,
  all three calls succeed and the raw count of the kind in the statistics is what
  \<open>read_counter\<close> would have returned for its descriptor before the three calls: the
  value the event already held, since \<open>perfmon_start\<close> does not reset the event of a
  disabled slot and \<open>perfmon_stop\<close> reads it all the same. It is 0 when the slot holds
  no descriptor or the event was at zero, as it is on a session that \<open>perfmon_init\<close>
  has just returned.
\<close>

theorem disabled_kind_keeps_value:
  assumes "\<not> is_running ctx"
    and "kind < PERFMON_MAX_COUNTERS"
    and "length (counters ctx) = PERFMON_MAX_COUNTERS"
    and "parked (counters ctx) w kind"
  shows "\<exists>w' c' s. disabled_measurement ops kind delta t w (Some ctx) = (True, w', c', Some s)
           \<and> raw_count kind s = counter_value w (fd (counters ctx ! kind))
           \<and> (fd (counters ctx ! kind) = - 1
                \<or> k_events w (fd (counters ctx ! kind)) = Some \<lparr>ev_count = 0, ev_active = False\<rparr>
                \<longrightarrow> raw_count kind s = 0)"
proof -
  from disabled_measurement_parked [OF assms, of ops delta t]
  obtain w' c' s where m: "disabled_measurement ops kind delta t w (Some ctx) = (True, w', c', Some s)"
    and v: "raw_count kind s = counter_value w (fd (counters ctx ! kind))"
    by blast
  have "fd (counters ctx ! kind) = - 1
          \<or> k_events w (fd (counters ctx ! kind)) = Some \<lparr>ev_count = 0, ev_active = False\<rparr>
        \<longrightarrow> raw_count kind s = 0"
    unfolding v by (auto simp: counter_value_def)
  with m v show ?thesis by blast
qed

theorem disabled_kind_keeps_value_witness:
  "\<not> is_running (the (fst demo_idle))
   \<and> PERFMON_CYCLES < PERFMON_MAX_COUNTERS
   \<and> length (counters (the (fst demo_idle))) = PERFMON_MAX_COUNTERS
   \<and> parked (counters (the (fst demo_idle))) (snd demo_idle) PERFMON_CYCLES
   \<and> fd (counters (the (fst demo_idle)) ! PERFMON_CYCLES) = 3
   \<and> k_events (snd demo_idle) 3 = Some \<lparr>ev_count = 0, ev_active = False\<rparr>
   \<and> (\<exists>w' c' s. disabled_measurement sym_ops PERFMON_CYCLES (\<lambda>f. 7) \<lparr>tv_sec = 102, tv_nsec = 0\<rparr>
                     (snd demo_idle) (Some (the (fst demo_idle))) = (True, w', c', Some s)
                 \<and> raw_count PERFMON_CYCLES s = 0)"
proof -
  note f = demo_idle_facts
  have k: "PERFMON_CYCLES < PERFMON_MAX_COUNTERS"
    by (simp add: PERFMON_CYCLES_def PERFMON_MAX_COUNTERS_def)
  have len: "length (counters (the (fst demo_idle))) = PERFMON_MAX_COUNTERS"
    by (rule demo_idle_fresh(1))
  have p: "parked (counters (the (fst demo_idle))) (snd demo_idle) PERFMON_CYCLES"
    using fresh_slots_parked [OF demo_idle_fresh(2)] k len by simp
  have e: "k_events (snd demo_idle) 3 = Some \<lparr>ev_count = 0, ev_active = False\<rparr>"
    by code_simp
  from disabled_kind_keeps_value [OF f(2) k len p, of sym_ops "\<lambda>f. 7" "\<lparr>tv_sec = 102, tv_nsec = 0\<rparr>"]
  obtain w' c' s where m: "disabled_measurement sym_ops PERFMON_CYCLES (\<lambda>f. 7) \<lparr>tv_sec = 102, tv_nsec = 0\<rparr>
                     (snd demo_idle) (Some (the (fst demo_idle))) = (True, w', c', Some s)"
    and z: "fd (counters (the (fst demo_idle)) ! PERFMON_CYCLES) = - 1
                \<or> k_events (snd demo_idle) (fd (counters (the (fst demo_idle)) ! PERFMON_CYCLES))
                     = Some \<lparr>ev_count = 0, ev_active = False\<rparr>
                \<longrightarrow> raw_count PERFMON_CYCLES s = 0"
    by blast
  from z e f(3) have "raw_count PERFMON_CYCLES s = 0"
    by simp
  with m f(2) k len p f(3) e show ?thesis
    by blast
qed

text \<open>
  C6 as stated, "the raw count of a kind disabled before start is 0 on every
  session", fails on a session that has measured before: after a first measurement in
  which the cycles event reached 5, a second measurement with the cycles kind disabled
  reports 5 cycles.
\<close>

theorem disabled_kind_stale_value:
  "fst demo_measured \<and> fst demo_second
   \<and> raw_count PERFMON_CYCLES (the (snd (snd (snd demo_second)))) = 5"
proof -
  define c1 where "c1 = the (snd (snd demo_running))"
  define wA where "wA = workload (\<lambda>f. 5) \<lparr>tv_sec = 101, tv_nsec = 0\<rparr> (fst (snd demo_running))"
  note f = demo_running_facts [folded c1_def wA_def]
  have c1: "snd (snd demo_running) = Some c1" and run: "is_running c1"
    using demo_running_ctx by (simp_all add: c1_def)
  have first: "demo_measured = perfmon_stop sym_ops wA (Some c1) (Some (zero_stats sym_ops))"
    by (simp add: demo_measured_def c1 wA_def)
  from perfmon_stop_running [OF run, of sym_ops wA "zero_stats sym_ops"]
  obtain s1 wB where stop: "perfmon_stop sym_ops wA (Some c1) (Some (zero_stats sym_ops)) =
        (True, wB, Some (c1\<lparr>end_time := k_clock wA, is_running := False\<rparr>), Some s1)"
    and wB: "wB = wA\<lparr>k_trace := k_trace wA @ [Sys_clock_gettime]
                       @ map (\<lambda>f. Sys_ioctl f PERF_EVENT_IOC_DISABLE)
                             (armed_fds (counters c1) [0..<PERFMON_MAX_COUNTERS])
                       @ read_calls (map (\<lambda>k. fd (counters c1 ! k)) [0..<PERFMON_MAX_COUNTERS]),
                     k_events := (\<lambda>f. if f \<in> set (armed_fds (counters c1) [0..<PERFMON_MAX_COUNTERS])
                                       then map_option (\<lambda>ev. ev\<lparr>ev_active := False\<rparr>) (k_events wA f)
                                       else k_events wA f)\<rparr>"
    by blast
  define c3 where "c3 = c1\<lparr>end_time := k_clock wA, is_running := False\<rparr>"
  have measured: "demo_measured = (True, wB, Some c3, Some s1)"
    by (simp add: first stop c3_def)
  have evB: "k_events wB 3 = Some \<lparr>ev_count = 5, ev_active = False\<rparr>"
    by (simp add: wB f(2) f(3))
  have rsB: "\<not> k_read_short wB 3"
    using f(4) by (simp add: wB)
  have cvB: "counter_value wB 3 = 5"
    using evB rsB by (simp add: counter_value_def)
  have idle: "\<not> is_running c3"
    by (simp add: c3_def)
  have len: "length (counters c3) = PERFMON_MAX_COUNTERS"
    using arg_cong [OF f(1), of length] by (simp add: c3_def PERFMON_MAX_COUNTERS_def)
  have k: "PERFMON_CYCLES < PERFMON_MAX_COUNTERS"
    by (simp add: PERFMON_CYCLES_def PERFMON_MAX_COUNTERS_def)
  have fd0: "fd (counters c3 ! PERFMON_CYCLES) = 3"
    using arg_cong [OF f(1), of "\<lambda>xs. xs ! 0"] len
    by (simp add: c3_def PERFMON_CYCLES_def PERFMON_MAX_COUNTERS_def)
  have dist: "distinct (map fd (counters c3))"
    by (simp add: c3_def f(1))
  have own: "\<forall>j<length (counters c3). j \<noteq> PERFMON_CYCLES \<longrightarrow>
               fd (counters c3 ! j) \<noteq> fd (counters c3 ! PERFMON_CYCLES)"
    using distinct_fds_own [OF dist] k len by simp
  have p: "parked (counters c3) wB PERFMON_CYCLES"
    using own by (simp add: parked_def fd0 evB)
  have second: "demo_second =
      disabled_measurement sym_ops PERFMON_CYCLES (\<lambda>f. 7) \<lparr>tv_sec = 102, tv_nsec = 0\<rparr> wB (Some c3)"
    by (simp add: demo_second_def measured)
  from disabled_measurement_parked [OF idle k len p, of sym_ops "\<lambda>f. 7" "\<lparr>tv_sec = 102, tv_nsec = 0\<rparr>"]
  obtain w' c' s where m: "demo_second = (True, w', c', Some s)"
    and v: "raw_count PERFMON_CYCLES s = counter_value wB (fd (counters c3 ! PERFMON_CYCLES))"
    unfolding second by blast
  have "fst demo_measured"
    by (simp add: measured)
  moreover have "fst demo_second"
    by (simp add: m)
  moreover have "raw_count PERFMON_CYCLES (the (snd (snd (snd demo_second)))) = 5"
    by (simp add: m v fd0 cvB)
  ultimately show ?thesis
    by simp
qed

end
